theory Spec2Isabelle
  imports Main "HOL-Library.Word"
begin

unbundle bit_operations_syntax

section \<open>The HD44780 text LCD driver of wiringPi (devLib/lcd.c)\<close>

text \<open>
  The driver talks to the display through calls of the GPIO and I2C libraries and through
  delays. The model records each such call, in order, as an event. A C \<open>int\<close> is a HOL
  \<open>int\<close>; an \<open>unsigned char\<close> is an 8-bit word, so that every conversion of an \<open>int\<close>
  expression to \<open>unsigned char\<close> is a visible \<open>word_of_int\<close>. A left shift by a pin
  number is \<open>push_bit\<close> by that number; C leaves the shift undefined for a pin number
  outside 0..30, and the statements that read single bits of an expander byte assume bit
  positions 0..7.
\<close>

subsection \<open>Data\<close>

type_synonym byte = "8 word"

datatype event =
    DigitalWrite int int
  | PinModeOutput int
  | DelayMicroseconds nat
  | Delay nat
  | I2CSetup int
  | I2CWrite int int

text \<open>
  What the controller is handed: one entry for each call of \<open>put4Command\<close> (a lone nibble,
  RS low) and of \<open>sendDataCmd\<close> (the RS level and a whole byte). It is a history variable:
  the driver appends to it where it calls these two functions and never reads it.
\<close>

datatype bus_write = Nibble byte | Whole byte byte

text \<open>
  Where C leaves the behaviour undefined the model stops with a fault: a handle that is
  outside the table or null, an index outside \<open>rowOff\<close> (with the index), a glyph
  array of fewer than eight bytes, and an \<open>int\<close> addition beyond \<open>INT_MAX\<close>.
\<close>

datatype fault = BadHandle | RowOffOutOfBounds int | ArgTooShort | IntOverflow

record lcd_config =
  rows :: int
  cols :: int
  i2c_addr :: int
  bits :: int
  rs :: int
  strb :: int
  d0 :: int
  d1 :: int
  d2 :: int
  d3 :: int
  d4 :: int
  d5 :: int
  d6 :: int
  d7 :: int
  backlight :: int
  backlight_state :: int

record lcdDataStruct =
  bits :: int
  rows :: int
  cols :: int
  rsPin :: int
  strbPin :: int
  dataPins :: "int list"
  cx :: int
  cy :: int
  i2c_fd :: int
  backlight_bit :: int
  backlight_state :: int

text \<open>
  The file's globals: the handle table \<open>lcds\<close> (a null pointer is \<open>None\<close>), the display
  control shadow \<open>lcdControl\<close> and the flag \<open>initialised\<close> of \<open>lcdNew\<close>; then the two logs.
\<close>

record lcd_state =
  lcds :: "lcdDataStruct option list"
  lcdControl :: int
  initialised :: int
  trace :: "event list"
  wire :: "bus_write list"

definition MAX_LCDS :: nat where
  "MAX_LCDS = 8"

definition INT_MAX :: int where
  "INT_MAX = 2147483647"

definition LCD_CLEAR :: int where "LCD_CLEAR = 0x01"
definition LCD_HOME :: int where "LCD_HOME = 0x02"
definition LCD_ENTRY :: int where "LCD_ENTRY = 0x04"
definition LCD_CTRL :: int where "LCD_CTRL = 0x08"
definition LCD_CDSHIFT :: int where "LCD_CDSHIFT = 0x10"
definition LCD_FUNC :: int where "LCD_FUNC = 0x20"
definition LCD_CGRAM :: int where "LCD_CGRAM = 0x40"
definition LCD_DGRAM :: int where "LCD_DGRAM = 0x80"
definition LCD_ENTRY_SH :: int where "LCD_ENTRY_SH = 0x01"
definition LCD_ENTRY_ID :: int where "LCD_ENTRY_ID = 0x02"
definition LCD_BLINK_CTRL :: int where "LCD_BLINK_CTRL = 0x01"
definition LCD_CURSOR_CTRL :: int where "LCD_CURSOR_CTRL = 0x02"
definition LCD_DISPLAY_CTRL :: int where "LCD_DISPLAY_CTRL = 0x04"
definition LCD_FUNC_F :: int where "LCD_FUNC_F = 0x04"
definition LCD_FUNC_N :: int where "LCD_FUNC_N = 0x08"
definition LCD_FUNC_DL :: int where "LCD_FUNC_DL = 0x10"
definition LCD_CDSHIFT_RL :: int where "LCD_CDSHIFT_RL = 0x04"

definition rowOff :: "int list" where
  "rowOff = [0x00, 0x40, 0x14, 0x54]"

text \<open>\<open>rowOff [i]\<close>: the table has four entries, and an index outside it is a fault.\<close>

definition rowOff_at :: "int \<Rightarrow> fault + int" where
  "rowOff_at i = (if 0 \<le> i \<and> i < 4 then Inr (rowOff ! nat i) else Inl (RowOffOutOfBounds i))"

text \<open>\<open>LCD_BACKLIGHT (lcd)\<close>\<close>

definition LCD_BACKLIGHT :: "lcdDataStruct \<Rightarrow> int" where
  "LCD_BACKLIGHT lcd =
     (if backlight_state lcd \<noteq> 0 then push_bit (nat (backlight_bit lcd)) 1 else 0)"

subsection \<open>Transport\<close>

text \<open>
  The static functions below take the handle as a pointer to const and only call the
  libraries, so each is the list of events it performs.
\<close>

definition strobe :: "lcdDataStruct \<Rightarrow> event list" where
  "strobe lcd =
     [DigitalWrite (strbPin lcd) 1, DelayMicroseconds 50,
      DigitalWrite (strbPin lcd) 0, DelayMicroseconds 50]"

definition i2c_send :: "lcdDataStruct \<Rightarrow> byte \<Rightarrow> event list" where
  "i2c_send lcd output =
     [I2CWrite (i2c_fd lcd)
        (uint output OR push_bit (nat (strbPin lcd)) 1 OR LCD_BACKLIGHT lcd),
      DelayMicroseconds 50,
      I2CWrite (i2c_fd lcd) (uint output OR LCD_BACKLIGHT lcd),
      DelayMicroseconds 50]"

text \<open>
  The loop of \<open>marshal4Bits\<close>, from index \<open>i\<close> on: \<open>output |= (myData & 1) << dataPins [i]\<close>
  is computed on \<open>int\<close> and stored in an \<open>unsigned char\<close>.
\<close>

fun marshal_loop :: "lcdDataStruct \<Rightarrow> nat \<Rightarrow> nat \<Rightarrow> byte \<Rightarrow> byte \<Rightarrow> byte" where
  "marshal_loop lcd i 0 myData output = output"
| "marshal_loop lcd i (Suc n) myData output =
     marshal_loop lcd (Suc i) n (drop_bit 1 myData)
       (word_of_int (uint output OR push_bit (nat (dataPins lcd ! i)) (uint (myData AND 1))))"

definition marshal4Bits :: "lcdDataStruct \<Rightarrow> byte \<Rightarrow> byte" where
  "marshal4Bits lcd data = marshal_loop lcd 0 4 data 0"

text \<open>
  The loops of \<open>sendDataCmd\<close> and \<open>put4Command\<close> that put the low \<open>n\<close> bits of a value on
  the data pins, from pin index \<open>i\<close> on.
\<close>

fun write_pins :: "lcdDataStruct \<Rightarrow> nat \<Rightarrow> nat \<Rightarrow> byte \<Rightarrow> event list" where
  "write_pins lcd i 0 d = []"
| "write_pins lcd i (Suc n) d =
     DigitalWrite (dataPins lcd ! i) (uint (d AND 1)) # write_pins lcd (Suc i) n (drop_bit 1 d)"

definition sendDataCmd :: "lcdDataStruct \<Rightarrow> byte \<Rightarrow> byte \<Rightarrow> event list" where
  "sendDataCmd lcd data rsel =
     (if i2c_fd lcd \<noteq> 0 then
        i2c_send lcd
          (word_of_int (uint (marshal4Bits lcd (drop_bit 4 data AND 0xf))
                        OR push_bit (nat (rsPin lcd)) (uint rsel)))
        @ i2c_send lcd
          (word_of_int (uint (marshal4Bits lcd (data AND 0xf))
                        OR push_bit (nat (rsPin lcd)) (uint rsel)))
      else
        DigitalWrite (rsPin lcd) (uint rsel) #
        (if bits lcd = 4 then
           write_pins lcd 0 4 (drop_bit 4 data AND 0x0F) @ strobe lcd
           @ write_pins lcd 0 4 (data AND 0x0F)
         else write_pins lcd 0 8 data)
        @ strobe lcd)"

definition putCommand :: "lcdDataStruct \<Rightarrow> byte \<Rightarrow> event list" where
  "putCommand lcd command = sendDataCmd lcd command 0 @ [Delay 2]"

definition put4Command :: "lcdDataStruct \<Rightarrow> byte \<Rightarrow> event list" where
  "put4Command lcd command =
     (if i2c_fd lcd \<noteq> 0 then i2c_send lcd (marshal4Bits lcd command)
      else DigitalWrite (rsPin lcd) 0 # write_pins lcd 0 4 command @ strobe lcd)"

subsection \<open>State\<close>

definition emit :: "event list \<Rightarrow> lcd_state \<Rightarrow> lcd_state" where
  "emit es s = s\<lparr>trace := trace s @ es\<rparr>"

text \<open>A call of \<open>sendDataCmd\<close>, \<open>putCommand\<close> or \<open>put4Command\<close> from a public function.\<close>

definition do_sendDataCmd :: "lcdDataStruct \<Rightarrow> byte \<Rightarrow> byte \<Rightarrow> lcd_state \<Rightarrow> lcd_state" where
  "do_sendDataCmd lcd data rsel s =
     s\<lparr>trace := trace s @ sendDataCmd lcd data rsel, wire := wire s @ [Whole rsel data]\<rparr>"

definition do_putCommand :: "lcdDataStruct \<Rightarrow> byte \<Rightarrow> lcd_state \<Rightarrow> lcd_state" where
  "do_putCommand lcd command s =
     s\<lparr>trace := trace s @ putCommand lcd command, wire := wire s @ [Whole 0 command]\<rparr>"

definition do_put4Command :: "lcdDataStruct \<Rightarrow> byte \<Rightarrow> lcd_state \<Rightarrow> lcd_state" where
  "do_put4Command lcd command s =
     s\<lparr>trace := trace s @ put4Command lcd command, wire := wire s @ [Nibble command]\<rparr>"

text \<open>
  \<open>lcds [fd]\<close> followed by a dereference: an index outside the table or a null entry is a
  fault.
\<close>

definition get_lcd :: "lcd_state \<Rightarrow> int \<Rightarrow> fault + lcdDataStruct" where
  "get_lcd s fd =
     (if 0 \<le> fd \<and> fd < int MAX_LCDS \<and> nat fd < length (lcds s) then
        (case lcds s ! nat fd of None \<Rightarrow> Inl BadHandle | Some lcd \<Rightarrow> Inr lcd)
      else Inl BadHandle)"

definition set_lcd :: "int \<Rightarrow> lcdDataStruct \<Rightarrow> lcd_state \<Rightarrow> lcd_state" where
  "set_lcd fd lcd s = s\<lparr>lcds := (lcds s)[nat fd := Some lcd]\<rparr>"

definition and_then :: "fault + 'a \<Rightarrow> ('a \<Rightarrow> fault + 'b) \<Rightarrow> fault + 'b" where
  "and_then r f = (case r of Inl e \<Rightarrow> Inl e | Inr x \<Rightarrow> f x)"

subsection \<open>User callable functions\<close>

definition lcdHome :: "lcd_state \<Rightarrow> int \<Rightarrow> fault + lcd_state" where
  "lcdHome s fd =
     and_then (get_lcd s fd) (\<lambda>lcd.
       Inr (emit [Delay 5]
             (set_lcd fd (lcd\<lparr>cx := 0, cy := 0\<rparr>)
               (do_putCommand lcd (word_of_int LCD_HOME) s))))"

definition lcdClear :: "lcd_state \<Rightarrow> int \<Rightarrow> fault + lcd_state" where
  "lcdClear s fd =
     and_then (get_lcd s fd) (\<lambda>lcd.
       Inr (emit [Delay 5]
             (set_lcd fd (lcd\<lparr>cx := 0, cy := 0\<rparr>)
               (do_putCommand lcd (word_of_int LCD_HOME)
                 (do_putCommand lcd (word_of_int LCD_CLEAR) s)))))"

text \<open>
  \<open>lcdDisplay\<close>, \<open>lcdCursor\<close> and \<open>lcdCursorBlink\<close> differ in the bit of \<open>lcdControl\<close> only.
\<close>

definition set_control :: "int \<Rightarrow> int \<Rightarrow> lcd_state \<Rightarrow> lcd_state" where
  "set_control flag st s =
     s\<lparr>lcdControl := (if st \<noteq> 0 then lcdControl s OR flag else lcdControl s AND NOT flag)\<rparr>"

definition lcdDisplay :: "lcd_state \<Rightarrow> int \<Rightarrow> int \<Rightarrow> fault + lcd_state" where
  "lcdDisplay s fd st =
     and_then (get_lcd s fd) (\<lambda>lcd.
       let s1 = set_control LCD_DISPLAY_CTRL st s
       in Inr (do_putCommand lcd (word_of_int (LCD_CTRL OR lcdControl s1)) s1))"

definition lcdCursor :: "lcd_state \<Rightarrow> int \<Rightarrow> int \<Rightarrow> fault + lcd_state" where
  "lcdCursor s fd st =
     and_then (get_lcd s fd) (\<lambda>lcd.
       let s1 = set_control LCD_CURSOR_CTRL st s
       in Inr (do_putCommand lcd (word_of_int (LCD_CTRL OR lcdControl s1)) s1))"

definition lcdCursorBlink :: "lcd_state \<Rightarrow> int \<Rightarrow> int \<Rightarrow> fault + lcd_state" where
  "lcdCursorBlink s fd st =
     and_then (get_lcd s fd) (\<lambda>lcd.
       let s1 = set_control LCD_BLINK_CTRL st s
       in Inr (do_putCommand lcd (word_of_int (LCD_CTRL OR lcdControl s1)) s1))"

definition lcdSendCommand :: "lcd_state \<Rightarrow> int \<Rightarrow> byte \<Rightarrow> fault + lcd_state" where
  "lcdSendCommand s fd command =
     and_then (get_lcd s fd) (\<lambda>lcd. Inr (do_putCommand lcd command s))"

definition lcdPosition :: "lcd_state \<Rightarrow> int \<Rightarrow> int \<Rightarrow> int \<Rightarrow> fault + lcd_state" where
  "lcdPosition s fd x y =
     and_then (get_lcd s fd) (\<lambda>lcd.
       if x > cols lcd \<or> x < 0 then Inr s
       else if y > rows lcd \<or> y < 0 then Inr s
       else and_then (rowOff_at y) (\<lambda>off.
         if x + (LCD_DGRAM OR off) > INT_MAX then Inl IntOverflow
         else Inr (set_lcd fd (lcd\<lparr>cx := x, cy := y\<rparr>)
                    (do_putCommand lcd (word_of_int (x + (LCD_DGRAM OR off))) s))))"

text \<open>The loop of \<open>lcdCharDef\<close> over \<open>data [0]\<close> .. \<open>data [7]\<close>.\<close>

fun send_rows :: "lcdDataStruct \<Rightarrow> byte list \<Rightarrow> lcd_state \<Rightarrow> lcd_state" where
  "send_rows lcd [] s = s"
| "send_rows lcd (d # ds) s = send_rows lcd ds (do_sendDataCmd lcd d 1 s)"

definition lcdCharDef :: "lcd_state \<Rightarrow> int \<Rightarrow> int \<Rightarrow> byte list \<Rightarrow> fault + lcd_state" where
  "lcdCharDef s fd index data =
     and_then (get_lcd s fd) (\<lambda>lcd.
       if length data < 8 then Inl ArgTooShort
       else Inr (send_rows lcd (take 8 data)
                  (do_putCommand lcd (word_of_int (LCD_CGRAM OR push_bit 3 (index AND 7))) s)))"

definition lcdPutchar :: "lcd_state \<Rightarrow> int \<Rightarrow> byte \<Rightarrow> fault + lcd_state" where
  "lcdPutchar s fd data =
     and_then (get_lcd s fd) (\<lambda>lcd.
       let s1 = do_sendDataCmd lcd data 1 s
       in if cx lcd = INT_MAX then Inl IntOverflow
          else if cx lcd + 1 = cols lcd then
            (if cy lcd = INT_MAX then Inl IntOverflow
             else
               let cy' = (if cy lcd + 1 = rows lcd then 0 else cy lcd + 1);
                   lcd' = lcd\<lparr>cx := 0, cy := cy'\<rparr>
               in and_then (rowOff_at cy') (\<lambda>off.
                    Inr (do_putCommand lcd' (word_of_int (cx lcd' + (LCD_DGRAM OR off)))
                          (set_lcd fd lcd' s1))))
          else Inr (set_lcd fd (lcd\<lparr>cx := cx lcd + 1\<rparr>) s1))"

text \<open>
  \<open>lcdPuts\<close>: the string is the list of its bytes; the loop stops at the first zero byte,
  and the end of the list stands for the terminator.
\<close>

fun lcdPuts :: "lcd_state \<Rightarrow> int \<Rightarrow> byte list \<Rightarrow> fault + lcd_state" where
  "lcdPuts s fd [] = Inr s"
| "lcdPuts s fd (c # cs) =
     (if c = 0 then Inr s else and_then (lcdPutchar s fd c) (\<lambda>s'. lcdPuts s' fd cs))"

text \<open>
  \<open>lcdPrintf\<close>: the argument is the text that the C library's formatting produces;
  \<open>vsnprintf\<close> keeps at most 1022 bytes of it.
\<close>

definition lcdPrintf :: "lcd_state \<Rightarrow> int \<Rightarrow> byte list \<Rightarrow> fault + lcd_state" where
  "lcdPrintf s fd formatted = lcdPuts s fd (take 1022 formatted)"

definition lcdBacklight :: "lcd_state \<Rightarrow> int \<Rightarrow> int \<Rightarrow> fault + lcd_state" where
  "lcdBacklight s fd st =
     and_then (get_lcd s fd) (\<lambda>lcd.
       let lcd' = lcd\<lparr>backlight_state := st\<rparr>;
           s1 = set_lcd fd lcd' s
       in Inr (if i2c_fd lcd' \<noteq> 0
               then emit [I2CWrite (i2c_fd lcd') (LCD_BACKLIGHT lcd')] s1 else s1))"

subsection \<open>The factory and the initialisation sequence\<close>

text \<open>The search of \<open>lcdNew\<close> for a null entry of the table, from index \<open>i\<close> on.\<close>

fun find_slot :: "lcdDataStruct option list \<Rightarrow> nat \<Rightarrow> nat \<Rightarrow> int" where
  "find_slot tbl i 0 = -1"
| "find_slot tbl i (Suc n) = (if tbl ! i = None then int i else find_slot tbl (Suc i) n)"

text \<open>The loop of \<open>lcdNew\<close> that drives the data pins low and makes them outputs.\<close>

fun init_pins :: "lcdDataStruct \<Rightarrow> nat \<Rightarrow> nat \<Rightarrow> event list" where
  "init_pins lcd i 0 = []"
| "init_pins lcd i (Suc n) =
     DigitalWrite (dataPins lcd ! i) 0 # PinModeOutput (dataPins lcd ! i) # init_pins lcd (Suc i) n"

text \<open>
  \<open>lcdNew\<close>: \<open>malloc_ok\<close> says whether the allocation succeeds and \<open>i2c_result\<close> is what
  \<open>wiringPiI2CSetup\<close> returns when it is called. The result is the returned \<open>int\<close> and the
  state.
\<close>

definition lcdNew :: "lcd_config \<Rightarrow> bool \<Rightarrow> int \<Rightarrow> lcd_state \<Rightarrow> int \<times> lcd_state" where
  "lcdNew config malloc_ok i2c_result s =
     (let s1 = (if initialised s = 0
                then s\<lparr>initialised := 1, lcds := replicate MAX_LCDS None\<rparr> else s)
      in if \<not> (lcd_config.bits config = 4 \<or> lcd_config.bits config = 8) then (-1, s1)
         else if lcd_config.rows config < 0 \<or> lcd_config.rows config > 20 then (-1, s1)
         else if lcd_config.cols config < 0 \<or> lcd_config.cols config > 20 then (-1, s1)
         else
           let lcdFd = find_slot (lcds s1) 0 MAX_LCDS
           in if lcdFd = -1 then (-1, s1)
              else if \<not> malloc_ok then (-1, s1)
              else
                let s2 = (if i2c_addr config \<noteq> 0 then emit [I2CSetup (i2c_addr config)] s1
                          else s1);
                    lcd = \<lparr>bits = lcd_config.bits config,
                           rows = lcd_config.rows config,
                           cols = lcd_config.cols config,
                           rsPin = rs config,
                           strbPin = strb config,
                           dataPins = [d0 config, d1 config, d2 config, d3 config,
                                       d4 config, d5 config, d6 config, d7 config],
                           cx = 0,
                           cy = 0,
                           i2c_fd = (if i2c_addr config \<noteq> 0 then i2c_result else 0),
                           backlight_bit = backlight config,
                           backlight_state = lcd_config.backlight_state config\<rparr>;
                    s3 = set_lcd lcdFd lcd s2;
                    s4 = (if i2c_fd lcd \<noteq> 0
                          then emit [I2CWrite (i2c_fd lcd) (LCD_BACKLIGHT lcd)] s3
                          else emit ([DigitalWrite (rsPin lcd) 0, PinModeOutput (rsPin lcd),
                                      DigitalWrite (strbPin lcd) 0, PinModeOutput (strbPin lcd)]
                                     @ init_pins lcd 0 (nat (bits lcd))) s3)
                in (lcdFd, emit [Delay 35] s4))"

text \<open>
  The function set steps at the head of \<open>lcdReinit\<close>: the value of \<open>func\<close> afterwards, and
  the state.
\<close>

definition reinit_func_set :: "lcdDataStruct \<Rightarrow> lcd_state \<Rightarrow> byte \<times> lcd_state" where
  "reinit_func_set lcd s =
     (if bits lcd = 4 then
        let func = word_of_int (LCD_FUNC OR LCD_FUNC_DL) :: byte;
            s1 = emit [Delay 35] (do_put4Command lcd (drop_bit 4 func) s);
            s2 = emit [Delay 35] (do_put4Command lcd (drop_bit 4 func) s1);
            s3 = emit [Delay 35] (do_put4Command lcd (drop_bit 4 func) s2);
            func' = word_of_int LCD_FUNC :: byte;
            s4 = emit [Delay 35] (do_put4Command lcd (drop_bit 4 func') s3)
        in (func', s4)
      else
        let func = word_of_int (LCD_FUNC OR LCD_FUNC_DL) :: byte;
            s1 = emit [Delay 35] (do_putCommand lcd func s);
            s2 = emit [Delay 35] (do_putCommand lcd func s1);
            s3 = emit [Delay 35] (do_putCommand lcd func s2)
        in (func, s3))"

text \<open>The step for displays of more than one row.\<close>

definition reinit_lines :: "lcdDataStruct \<Rightarrow> byte \<times> lcd_state \<Rightarrow> lcd_state" where
  "reinit_lines lcd fs =
     (if rows lcd > 1
      then emit [Delay 35] (do_putCommand lcd (fst fs OR word_of_int LCD_FUNC_N) (snd fs))
      else snd fs)"

text \<open>\<open>TRUE\<close> is \<open>(1==1)\<close>, that is 1, and \<open>FALSE\<close> is \<open>(1==2)\<close>, that is 0.\<close>

definition lcdReinit :: "lcd_state \<Rightarrow> int \<Rightarrow> fault + lcd_state" where
  "lcdReinit s lcdFd =
     and_then (get_lcd s lcdFd) (\<lambda>lcd.
       and_then (lcdDisplay (reinit_lines lcd (reinit_func_set lcd s)) lcdFd 1) (\<lambda>s5.
       and_then (lcdCursor s5 lcdFd 0) (\<lambda>s6.
       and_then (lcdCursorBlink s6 lcdFd 0) (\<lambda>s7.
       and_then (lcdClear s7 lcdFd) (\<lambda>s8.
       and_then (get_lcd s8 lcdFd) (\<lambda>lcd'.
         Inr (do_putCommand lcd' (word_of_int (LCD_CDSHIFT OR LCD_CDSHIFT_RL))
               (do_putCommand lcd' (word_of_int (LCD_ENTRY OR LCD_ENTRY_ID)) s8))))))))"

definition lcdInit :: "lcd_config \<Rightarrow> bool \<Rightarrow> int \<Rightarrow> lcd_state \<Rightarrow> fault + int \<times> lcd_state" where
  "lcdInit config malloc_ok i2c_result s =
     (let r = lcdNew config malloc_ok i2c_result s
      in if fst r < 0 then Inr (-1, snd r)
         else and_then (lcdReinit (snd r) (fst r)) (\<lambda>s'. Inr (fst r, s')))"

text \<open>The state of the program before the first call: C zeroes the globals.\<close>

definition boot :: lcd_state where
  "boot = \<lparr>lcds = replicate MAX_LCDS None, lcdControl = 0, initialised = 0,
           trace = [], wire = []\<rparr>"

subsection \<open>Calls of the public functions\<close>

datatype call =
    Home int
  | Clear int
  | Display int int
  | Cursor int int
  | CursorBlink int int
  | SendCommand int byte
  | Position int int int
  | CharDef int int "byte list"
  | Putchar int byte
  | Puts int "byte list"
  | Printf int "byte list"
  | Reinit int
  | Backlight int int
  | New lcd_config bool int
  | Init lcd_config bool int

fun exec :: "call \<Rightarrow> lcd_state \<Rightarrow> fault + lcd_state" where
  "exec (Home fd) s = lcdHome s fd"
| "exec (Clear fd) s = lcdClear s fd"
| "exec (Display fd st) s = lcdDisplay s fd st"
| "exec (Cursor fd st) s = lcdCursor s fd st"
| "exec (CursorBlink fd st) s = lcdCursorBlink s fd st"
| "exec (SendCommand fd c) s = lcdSendCommand s fd c"
| "exec (Position fd x y) s = lcdPosition s fd x y"
| "exec (CharDef fd index data) s = lcdCharDef s fd index data"
| "exec (Putchar fd c) s = lcdPutchar s fd c"
| "exec (Puts fd str) s = lcdPuts s fd str"
| "exec (Printf fd str) s = lcdPrintf s fd str"
| "exec (Reinit fd) s = lcdReinit s fd"
| "exec (Backlight fd st) s = lcdBacklight s fd st"
| "exec (New config m r) s = Inr (snd (lcdNew config m r s))"
| "exec (Init config m r) s = and_then (lcdInit config m r s) (\<lambda>p. Inr (snd p))"

fun exec_all :: "call list \<Rightarrow> lcd_state \<Rightarrow> fault + lcd_state" where
  "exec_all [] s = Inr s"
| "exec_all (c # cs) s = and_then (exec c s) (exec_all cs)"

subsection \<open>The controller's address register\<close>

text \<open>
  Modelled from the spec: the controller is hardware and no code of the repository; the
  table of opcodes in the specification's command layer says which writes move its
  address register. A set DDRAM address command loads it, a set CGRAM address command
  points it into the glyph memory, clear and home reset it to DDRAM address 0, a cursor
  shift moves it by one, a data write advances it by one (entry mode auto-increment), and
  the other commands leave it alone.
\<close>

datatype areg = DDRAM int | CGRAM int

fun ctrl_write :: "bus_write \<Rightarrow> areg \<Rightarrow> areg" where
  "ctrl_write (Nibble n) a = a"
| "ctrl_write (Whole rsel b) a =
     (if rsel \<noteq> 0 then (case a of DDRAM k \<Rightarrow> DDRAM (k + 1) | CGRAM k \<Rightarrow> CGRAM (k + 1))
      else if bit b 7 then DDRAM (uint (b AND 0x7F))
      else if bit b 6 then CGRAM (uint (b AND 0x3F))
      else if bit b 5 then a
      else if bit b 4 then
        (if bit b 3 then a
         else (case a of
                 DDRAM k \<Rightarrow> DDRAM (if bit b 2 then k + 1 else k - 1)
               | CGRAM k \<Rightarrow> CGRAM (if bit b 2 then k + 1 else k - 1)))
      else if bit b 3 then a
      else if bit b 2 then a
      else if bit b 1 then DDRAM 0
      else if bit b 0 then DDRAM 0
      else a)"

definition ctrl_run :: "bus_write list \<Rightarrow> areg \<Rightarrow> areg" where
  "ctrl_run ws a = fold ctrl_write ws a"

text \<open>The cell that \<open>cx\<close> and \<open>cy\<close> name is the one the address register points at.\<close>

definition in_step :: "lcdDataStruct \<Rightarrow> areg \<Rightarrow> bool" where
  "in_step lcd a =
     (case rowOff_at (cy lcd) of Inl e \<Rightarrow> False | Inr off \<Rightarrow> a = DDRAM (off + cx lcd))"

text \<open>The writes that a call adds to a log.\<close>

definition added :: "'a list \<Rightarrow> 'a list \<Rightarrow> 'a list" where
  "added old new = drop (length old) new"

subsection \<open>Reading an expander byte\<close>

text \<open>
  On the I2C transport the pin numbers are bit positions of the one byte that the port
  expander latches. The strobe, the register select, the backlight and the four data
  lines are seven different positions of that byte.
\<close>

definition expander_lines :: "lcdDataStruct \<Rightarrow> int list" where
  "expander_lines lcd =
     [strbPin lcd, rsPin lcd, backlight_bit lcd,
      dataPins lcd ! 0, dataPins lcd ! 1, dataPins lcd ! 2, dataPins lcd ! 3]"

definition expander_wiring :: "lcdDataStruct \<Rightarrow> bool" where
  "expander_wiring lcd \<longleftrightarrow>
     distinct (expander_lines lcd) \<and> list_all (\<lambda>p. 0 \<le> p \<and> p < 8) (expander_lines lcd)"

text \<open>
  The byte \<open>b\<close> carries the strobe level \<open>e\<close>, the register select level \<open>r\<close>, the
  stored backlight state and the low four bits of \<open>nib\<close>, each on its own line.
\<close>

definition packed :: "lcdDataStruct \<Rightarrow> bool \<Rightarrow> bool \<Rightarrow> byte \<Rightarrow> int \<Rightarrow> bool" where
  "packed lcd e r nib b \<longleftrightarrow>
     bit b (nat (strbPin lcd)) = e \<and>
     bit b (nat (rsPin lcd)) = r \<and>
     bit b (nat (backlight_bit lcd)) = (backlight_state lcd \<noteq> 0) \<and>
     bit b (nat (dataPins lcd ! 0)) = bit nib 0 \<and>
     bit b (nat (dataPins lcd ! 1)) = bit nib 1 \<and>
     bit b (nat (dataPins lcd ! 2)) = bit nib 2 \<and>
     bit b (nat (dataPins lcd ! 3)) = bit nib 3"

text \<open>Every I2C write among the events has the backlight bit equal to the stored state.\<close>

fun backlight_kept :: "lcdDataStruct \<Rightarrow> event list \<Rightarrow> bool" where
  "backlight_kept lcd [] = True"
| "backlight_kept lcd (I2CWrite f b # es) =
     (bit b (nat (backlight_bit lcd)) = (backlight_state lcd \<noteq> 0) \<and> backlight_kept lcd es)"
| "backlight_kept lcd (e # es) = backlight_kept lcd es"

subsection \<open>Example displays\<close>

text \<open>A 16x2 display on eight GPIO pins, four data lines.\<close>

definition gpio4_config :: lcd_config where
  "gpio4_config =
     \<lparr>lcd_config.rows = 2, lcd_config.cols = 16, i2c_addr = 0, lcd_config.bits = 4,
      rs = 11, strb = 10, d0 = 0, d1 = 1, d2 = 2, d3 = 3, d4 = 0, d5 = 0, d6 = 0, d7 = 0,
      backlight = 0, lcd_config.backlight_state = 0\<rparr>"

text \<open>The specification's scenario: a 16x2 display behind a port expander at 0x27.\<close>

definition i2c_config :: lcd_config where
  "i2c_config =
     \<lparr>lcd_config.rows = 2, lcd_config.cols = 16, i2c_addr = 0x27, lcd_config.bits = 4,
      rs = 0, strb = 2, d0 = 4, d1 = 5, d2 = 6, d3 = 7, d4 = 0, d5 = 0, d6 = 0, d7 = 0,
      backlight = 3, lcd_config.backlight_state = 1\<rparr>"

definition gpio4_lcd :: lcdDataStruct where
  "gpio4_lcd =
     \<lparr>bits = 4, rows = 2, cols = 16, rsPin = 11, strbPin = 10,
      dataPins = [0, 1, 2, 3, 0, 0, 0, 0], cx = 0, cy = 0, i2c_fd = 0,
      backlight_bit = 0, backlight_state = 0\<rparr>"

definition i2c_lcd :: lcdDataStruct where
  "i2c_lcd =
     \<lparr>bits = 4, rows = 2, cols = 16, rsPin = 0, strbPin = 2,
      dataPins = [4, 5, 6, 7, 0, 0, 0, 0], cx = 0, cy = 0, i2c_fd = 5,
      backlight_bit = 3, backlight_state = 1\<rparr>"

text \<open>The state after the factory built the one or the other as the first display.\<close>

definition gpio4_state :: lcd_state where
  "gpio4_state = snd (lcdNew gpio4_config True 0 boot)"

definition i2c_state :: lcd_state where
  "i2c_state = snd (lcdNew i2c_config True 5 boot)"

text \<open>A 20x4 display on GPIO pins, eight data lines.\<close>

definition wide_config :: lcd_config where
  "wide_config =
     \<lparr>lcd_config.rows = 4, lcd_config.cols = 20, i2c_addr = 0, lcd_config.bits = 8,
      rs = 11, strb = 10, d0 = 0, d1 = 1, d2 = 2, d3 = 3, d4 = 4, d5 = 5, d6 = 6, d7 = 7,
      backlight = 0, lcd_config.backlight_state = 0\<rparr>"

definition wide_lcd :: lcdDataStruct where
  "wide_lcd =
     \<lparr>bits = 8, rows = 4, cols = 20, rsPin = 11, strbPin = 10,
      dataPins = [0, 1, 2, 3, 4, 5, 6, 7], cx = 0, cy = 0, i2c_fd = 0,
      backlight_bit = 0, backlight_state = 0\<rparr>"

definition wide_state :: lcd_state where
  "wide_state = snd (lcdNew wide_config True 0 boot)"

text \<open>The 16x2 display with the cursor on its last cell.\<close>

definition corner_lcd :: lcdDataStruct where
  "corner_lcd = gpio4_lcd\<lparr>cx := 15, cy := 1\<rparr>"

definition corner_state :: lcd_state where
  "corner_state = set_lcd 0 corner_lcd gpio4_state"

subsection \<open>What the factory checks and sees\<close>

text \<open>The three range checks at the head of \<open>lcdNew\<close>, all passed.\<close>

definition valid_config :: "lcd_config \<Rightarrow> bool" where
  "valid_config config \<longleftrightarrow>
     (lcd_config.bits config = 4 \<or> lcd_config.bits config = 8) \<and>
     0 \<le> lcd_config.rows config \<and> lcd_config.rows config \<le> 20 \<and>
     0 \<le> lcd_config.cols config \<and> lcd_config.cols config \<le> 20"

text \<open>The handle table that the search runs on: the first call clears it before.\<close>

definition table_seen :: "lcd_state \<Rightarrow> lcdDataStruct option list" where
  "table_seen s = (if initialised s = 0 then replicate MAX_LCDS None else lcds s)"

subsection \<open>What a handle keeps\<close>

text \<open>
  Two values of a handle that differ at most in the cursor and the backlight state.
\<close>

definition same_display :: "lcdDataStruct \<Rightarrow> lcdDataStruct \<Rightarrow> bool" where
  "same_display a b \<longleftrightarrow>
     bits a = bits b \<and> rows a = rows b \<and> cols a = cols b \<and>
     rsPin a = rsPin b \<and> strbPin a = strbPin b \<and> dataPins a = dataPins b \<and>
     i2c_fd a = i2c_fd b \<and> backlight_bit a = backlight_bit b"

text \<open>
  From \<open>s\<close> to \<open>s'\<close> the table keeps its length, the flag of \<open>lcdNew\<close> stays set, and every
  open handle stays open on the same display.
\<close>

definition evolves :: "lcd_state \<Rightarrow> lcd_state \<Rightarrow> bool" where
  "evolves s s' \<longleftrightarrow>
     length (lcds s') = length (lcds s) \<and>
     (initialised s \<noteq> 0 \<longrightarrow> initialised s' \<noteq> 0) \<and>
     (\<forall>h lcd. get_lcd s h = Inr lcd \<longrightarrow>
        (\<exists>lcd'. get_lcd s' h = Inr lcd' \<and> same_display lcd lcd'))"

text \<open>The bounds that the range checks of \<open>lcdNew\<close> put on a handle.\<close>

definition checked_geometry :: "lcdDataStruct \<Rightarrow> bool" where
  "checked_geometry lcd \<longleftrightarrow>
     (bits lcd = 4 \<or> bits lcd = 8) \<and> 0 \<le> rows lcd \<and> rows lcd \<le> 20 \<and>
     0 \<le> cols lcd \<and> cols lcd \<le> 20"

text \<open>A display of five rows and one column, which the range checks let pass.\<close>

definition tall_config :: lcd_config where
  "tall_config =
     \<lparr>lcd_config.rows = 5, lcd_config.cols = 1, i2c_addr = 0, lcd_config.bits = 8,
      rs = 11, strb = 10, d0 = 0, d1 = 1, d2 = 2, d3 = 3, d4 = 4, d5 = 5, d6 = 6, d7 = 7,
      backlight = 0, lcd_config.backlight_state = 0\<rparr>"

definition tall_lcd :: lcdDataStruct where
  "tall_lcd =
     \<lparr>bits = 8, rows = 5, cols = 1, rsPin = 11, strbPin = 10,
      dataPins = [0, 1, 2, 3, 4, 5, 6, 7], cx = 0, cy = 0, i2c_fd = 0,
      backlight_bit = 0, backlight_state = 0\<rparr>"

definition tall_state :: lcd_state where
  "tall_state = snd (lcdNew tall_config True 0 boot)"

text \<open>Some calls on the 16x2 display, and the state they lead to.\<close>

definition demo_calls :: "call list" where
  "demo_calls =
     [Putchar 0 0x41, Position 0 3 1, Backlight 0 1, Display 0 1, Puts 0 [0x48, 0x69],
      Clear 0]"

definition demo_state :: lcd_state where
  "demo_state = (case exec_all demo_calls gpio4_state of Inl e \<Rightarrow> gpio4_state | Inr t \<Rightarrow> t)"

subsection \<open>Calls on one handle\<close>

text \<open>The handle that a call works on; the two constructors make a new one.\<close>

fun call_handle :: "call \<Rightarrow> int option" where
  "call_handle (Home fd) = Some fd"
| "call_handle (Clear fd) = Some fd"
| "call_handle (Display fd st) = Some fd"
| "call_handle (Cursor fd st) = Some fd"
| "call_handle (CursorBlink fd st) = Some fd"
| "call_handle (SendCommand fd c) = Some fd"
| "call_handle (Position fd x y) = Some fd"
| "call_handle (CharDef fd index data) = Some fd"
| "call_handle (Putchar fd c) = Some fd"
| "call_handle (Puts fd str) = Some fd"
| "call_handle (Printf fd str) = Some fd"
| "call_handle (Reinit fd) = Some fd"
| "call_handle (Backlight fd st) = Some fd"
| "call_handle (New config m r) = None"
| "call_handle (Init config m r) = None"

text \<open>
  Handle values of one display with one backlight state, and a step from \<open>s\<close> to \<open>t\<close> that
  keeps the handle \<open>fd\<close> such a value while every expander byte it writes has the
  backlight bit of \<open>lcd\<close>.
\<close>

definition like :: "lcdDataStruct \<Rightarrow> lcdDataStruct \<Rightarrow> bool" where
  "like lcd l \<longleftrightarrow> same_display lcd l \<and> backlight_state l = backlight_state lcd"

definition i2c_step :: "int \<Rightarrow> lcdDataStruct \<Rightarrow> lcd_state \<Rightarrow> lcd_state \<Rightarrow> bool" where
  "i2c_step fd lcd s t \<longleftrightarrow>
     (\<exists>lcd' es. get_lcd t fd = Inr lcd' \<and> like lcd lcd' \<and>
        trace t = trace s @ es \<and> backlight_kept lcd es)"

text \<open>
  A display behind a port expander whose configuration puts the backlight on the bit of
  the strobe, and the state after the backlight was switched off and one character
  written.
\<close>

definition clash_config :: lcd_config where
  "clash_config =
     \<lparr>lcd_config.rows = 2, lcd_config.cols = 16, i2c_addr = 0x27, lcd_config.bits = 4,
      rs = 0, strb = 2, d0 = 4, d1 = 5, d2 = 6, d3 = 7, d4 = 0, d5 = 0, d6 = 0, d7 = 0,
      backlight = 2, lcd_config.backlight_state = 1\<rparr>"

definition clash_state :: lcd_state where
  "clash_state = snd (lcdNew clash_config True 5 boot)"

definition clash_after :: lcd_state where
  "clash_after =
     (case exec_all [Backlight 0 0, Putchar 0 0x41] clash_state of
        Inl e \<Rightarrow> clash_state | Inr t \<Rightarrow> t)"

definition clash_lcd :: lcdDataStruct where
  "clash_lcd =
     \<lparr>bits = 4, rows = 2, cols = 16, rsPin = 0, strbPin = 2,
      dataPins = [4, 5, 6, 7, 0, 0, 0, 0], cx = 1, cy = 0, i2c_fd = 5,
      backlight_bit = 2, backlight_state = 0\<rparr>"

text \<open>The state of the specification's scenario after the backlight was switched off.\<close>

definition i2c_dark :: lcd_state where
  "i2c_dark = (case lcdBacklight i2c_state 0 0 of Inl e \<Rightarrow> i2c_state | Inr t \<Rightarrow> t)"

definition i2c_dark_A :: lcd_state where
  "i2c_dark_A = (case lcdPutchar i2c_dark 0 0x41 of Inl e \<Rightarrow> i2c_dark | Inr t \<Rightarrow> t)"

text \<open>
  The 16x2 display after \<open>lcdSendCommand\<close> with the set DDRAM address command for
  address 5, and after \<open>lcdCharDef\<close> for glyph 3.
\<close>

definition sent_state :: lcd_state where
  "sent_state = (case lcdSendCommand gpio4_state 0 0x85 of Inl e \<Rightarrow> gpio4_state | Inr t \<Rightarrow> t)"

definition glyph_state :: lcd_state where
  "glyph_state =
     (case lcdCharDef gpio4_state 0 3 [0x0E, 0x11, 0x11, 0x1F, 0x11, 0x11, 0x11, 0x00] of
        Inl e \<Rightarrow> gpio4_state | Inr t \<Rightarrow> t)"

text \<open>The display of five rows and one column after three characters.\<close>

definition tall_row3 :: lcd_state where
  "tall_row3 =
     (case exec_all [Putchar 0 0x41, Putchar 0 0x42, Putchar 0 0x43] tall_state of
        Inl e \<Rightarrow> tall_state | Inr t \<Rightarrow> t)"

section \<open>Basic facts\<close>

lemmas lcd_consts =
  LCD_CLEAR_def LCD_HOME_def LCD_ENTRY_def LCD_CTRL_def LCD_CDSHIFT_def LCD_FUNC_def
  LCD_CGRAM_def LCD_DGRAM_def LCD_ENTRY_SH_def LCD_ENTRY_ID_def LCD_BLINK_CTRL_def
  LCD_CURSOR_CTRL_def LCD_DISPLAY_CTRL_def LCD_FUNC_F_def LCD_FUNC_N_def LCD_FUNC_DL_def
  LCD_CDSHIFT_RL_def

lemma and_then_Inl [simp]: "and_then (Inl e) f = Inl e"
  by (simp add: and_then_def)

lemma and_then_Inr [simp]: "and_then (Inr x) f = f x"
  by (simp add: and_then_def)

lemma and_then_eq_Inr:
  "and_then r f = Inr y \<longleftrightarrow> (\<exists>x. r = Inr x \<and> f x = Inr y)"
  by (cases r) simp_all

lemma get_lcd_Inr:
  "get_lcd s fd = Inr lcd \<longleftrightarrow>
     0 \<le> fd \<and> fd < int MAX_LCDS \<and> nat fd < length (lcds s) \<and> lcds s ! nat fd = Some lcd"
  by (auto simp: get_lcd_def split: option.splits)

lemma get_lcd_emit [simp]: "get_lcd (emit es s) fd = get_lcd s fd"
  by (simp add: get_lcd_def emit_def)

lemma get_lcd_do_putCommand [simp]: "get_lcd (do_putCommand l c s) fd = get_lcd s fd"
  by (simp add: get_lcd_def do_putCommand_def)

lemma get_lcd_do_put4Command [simp]: "get_lcd (do_put4Command l c s) fd = get_lcd s fd"
  by (simp add: get_lcd_def do_put4Command_def)

lemma get_lcd_do_sendDataCmd [simp]: "get_lcd (do_sendDataCmd l c r s) fd = get_lcd s fd"
  by (simp add: get_lcd_def do_sendDataCmd_def)

lemma get_lcd_set_control [simp]: "get_lcd (set_control f st s) fd = get_lcd s fd"
  by (simp add: get_lcd_def set_control_def)

lemma get_lcd_set_lcd_same:
  "get_lcd s fd = Inr lcd \<Longrightarrow> get_lcd (set_lcd fd lcd' s) fd = Inr lcd'"
  by (simp add: get_lcd_Inr set_lcd_def)

lemma get_lcd_set_lcd_other:
  "fd' \<noteq> fd \<Longrightarrow> 0 \<le> fd \<Longrightarrow> get_lcd (set_lcd fd lcd' s) fd' = get_lcd s fd'"
  by (auto simp: get_lcd_def set_lcd_def nat_eq_iff split: option.splits)

lemma trace_emit [simp]: "trace (emit es s) = trace s @ es"
  by (simp add: emit_def)

lemma trace_do_putCommand [simp]: "trace (do_putCommand l c s) = trace s @ putCommand l c"
  by (simp add: do_putCommand_def)

lemma trace_do_put4Command [simp]: "trace (do_put4Command l c s) = trace s @ put4Command l c"
  by (simp add: do_put4Command_def)

lemma trace_do_sendDataCmd [simp]:
  "trace (do_sendDataCmd l c r s) = trace s @ sendDataCmd l c r"
  by (simp add: do_sendDataCmd_def)

lemma trace_set_lcd [simp]: "trace (set_lcd fd l s) = trace s"
  by (simp add: set_lcd_def)

lemma trace_set_control [simp]: "trace (set_control f st s) = trace s"
  by (simp add: set_control_def)

lemma wire_emit [simp]: "wire (emit es s) = wire s"
  by (simp add: emit_def)

lemma wire_do_putCommand [simp]: "wire (do_putCommand l c s) = wire s @ [Whole 0 c]"
  by (simp add: do_putCommand_def)

lemma wire_do_put4Command [simp]: "wire (do_put4Command l c s) = wire s @ [Nibble c]"
  by (simp add: do_put4Command_def)

lemma wire_do_sendDataCmd [simp]: "wire (do_sendDataCmd l c r s) = wire s @ [Whole r c]"
  by (simp add: do_sendDataCmd_def)

lemma wire_set_lcd [simp]: "wire (set_lcd fd l s) = wire s"
  by (simp add: set_lcd_def)

lemma wire_set_control [simp]: "wire (set_control f st s) = wire s"
  by (simp add: set_control_def)

lemma added_append [simp]: "added xs (xs @ ys) = ys"
  by (simp add: added_def)

lemma added_append2 [simp]: "added xs ((xs @ ys) @ zs) = ys @ zs"
  by (simp add: added_def)

subsection \<open>The transport reads the wiring only\<close>

lemma write_pins_numeral:
  "write_pins lcd i (numeral k) d =
     DigitalWrite (dataPins lcd ! i) (uint (d AND 1)) #
     write_pins lcd (Suc i) (pred_numeral k) (drop_bit 1 d)"
  by (simp add: numeral_eq_Suc)

lemma write_pins_wiring:
  "dataPins l' = dataPins l \<Longrightarrow> write_pins l' i n d = write_pins l i n d"
  by (induction n arbitrary: i d) simp_all

lemma marshal_loop_wiring:
  "dataPins l' = dataPins l \<Longrightarrow> marshal_loop l' i n d out = marshal_loop l i n d out"
  by (induction n arbitrary: i d out) simp_all

lemma sendDataCmd_cursor [simp]:
  "sendDataCmd (l\<lparr>cx := a, cy := b\<rparr>) c r = sendDataCmd l c r"
  by (simp add: sendDataCmd_def i2c_send_def strobe_def marshal4Bits_def LCD_BACKLIGHT_def
      write_pins_wiring [of "l\<lparr>cx := a, cy := b\<rparr>" l]
      marshal_loop_wiring [of "l\<lparr>cx := a, cy := b\<rparr>" l])

lemma sendDataCmd_cx [simp]: "sendDataCmd (l\<lparr>cx := a\<rparr>) c r = sendDataCmd l c r"
  by (simp add: sendDataCmd_def i2c_send_def strobe_def marshal4Bits_def LCD_BACKLIGHT_def
      write_pins_wiring [of "l\<lparr>cx := a\<rparr>" l] marshal_loop_wiring [of "l\<lparr>cx := a\<rparr>" l])

lemma putCommand_cursor [simp]: "putCommand (l\<lparr>cx := a, cy := b\<rparr>) c = putCommand l c"
  by (simp add: putCommand_def)

subsection \<open>The bits of an expander byte\<close>

lemma bit_marshal_step:
  "bit (word_of_int (uint (out::byte) OR push_bit p (uint ((d::byte) AND 1))) :: byte) k \<longleftrightarrow>
     bit out k \<or> (k < 8 \<and> k = p \<and> bit d 0)"
  by (auto simp: bit_simps bit_1_iff dest: bit_imp_le_length)

lemma bit_marshal_loop:
  "bit (marshal_loop lcd i n d out) k \<longleftrightarrow>
     bit out k \<or> (k < 8 \<and> (\<exists>j<n. k = nat (dataPins lcd ! (i + j)) \<and> bit d j))"
proof (induction n arbitrary: i d out)
  case 0
  show ?case by simp
next
  case (Suc n)
  show ?case
    unfolding marshal_loop.simps Suc.IH bit_marshal_step Ex_less_Suc2
    by (auto simp: bit_simps)
qed

lemma less_4_iff: "j < 4 \<longleftrightarrow> j = 0 \<or> j = 1 \<or> j = 2 \<or> j = (3::nat)"
  by arith

lemma bit_marshal4Bits:
  "bit (marshal4Bits lcd d) k \<longleftrightarrow>
     k < 8 \<and> ((k = nat (dataPins lcd ! 0) \<and> bit d 0) \<or> (k = nat (dataPins lcd ! 1) \<and> bit d 1)
       \<or> (k = nat (dataPins lcd ! 2) \<and> bit d 2) \<or> (k = nat (dataPins lcd ! 3) \<and> bit d 3))"
  unfolding marshal4Bits_def bit_marshal_loop less_4_iff
  by auto

lemma expander_wiringD:
  assumes "expander_wiring lcd"
  shows "nat (strbPin lcd) < 8" "nat (rsPin lcd) < 8" "nat (backlight_bit lcd) < 8"
    "nat (dataPins lcd ! 0) < 8" "nat (dataPins lcd ! 1) < 8"
    "nat (dataPins lcd ! 2) < 8" "nat (dataPins lcd ! 3) < 8"
    "distinct [nat (strbPin lcd), nat (rsPin lcd), nat (backlight_bit lcd),
       nat (dataPins lcd ! 0), nat (dataPins lcd ! 1), nat (dataPins lcd ! 2),
       nat (dataPins lcd ! 3)]"
    "distinct [nat (dataPins lcd ! 3), nat (dataPins lcd ! 2), nat (dataPins lcd ! 1),
       nat (dataPins lcd ! 0), nat (backlight_bit lcd), nat (rsPin lcd), nat (strbPin lcd)]"
  using assms by (auto simp: expander_wiring_def expander_lines_def nat_eq_iff)

lemma byte_le_1: "(r::byte) \<le> 1 \<Longrightarrow> r = 0 \<or> r = 1"
proof -
  assume "r \<le> 1"
  then have "unat r \<le> 1" by (simp add: word_le_nat_alt)
  then have "unat r = 0 \<or> unat r = 1" by arith
  then show ?thesis by (auto simp: word_unat_eq_iff)
qed

lemma bit_rs_shift:
  "r \<le> 1 \<Longrightarrow> bit (push_bit p (uint (r::byte))) k \<longleftrightarrow> r \<noteq> 0 \<and> k = p"
  by (drule byte_le_1) (auto simp: bit_simps bit_1_iff)

lemma bit_i2c_arg:
  "r \<le> 1 \<Longrightarrow>
   bit (word_of_int (uint (m::byte) OR push_bit p (uint (r::byte))) :: byte) k \<longleftrightarrow>
     bit m k \<or> (k < 8 \<and> r \<noteq> 0 \<and> k = p)"
  by (auto simp: bit_word_of_int_iff bit_or_iff bit_rs_shift bit_uint_iff dest: bit_imp_le_length)

lemma bit_strobe_high:
  "bit (uint (out::byte) OR push_bit s 1 OR LCD_BACKLIGHT lcd) k \<longleftrightarrow>
     bit out k \<or> k = s \<or> (backlight_state lcd \<noteq> 0 \<and> k = nat (backlight_bit lcd))"
  by (auto simp: LCD_BACKLIGHT_def bit_or_iff bit_uint_iff bit_push_bit_iff bit_1_iff
      bit_exp_iff dest: bit_imp_le_length)

lemma bit_strobe_low:
  "bit (uint (out::byte) OR LCD_BACKLIGHT lcd) k \<longleftrightarrow>
     bit out k \<or> (backlight_state lcd \<noteq> 0 \<and> k = nat (backlight_bit lcd))"
  by (auto simp: LCD_BACKLIGHT_def bit_or_iff bit_uint_iff bit_push_bit_iff bit_1_iff
      bit_exp_iff dest: bit_imp_le_length)

lemma packed_high:
  assumes w: "expander_wiring lcd" and r: "(r::byte) \<le> 1"
  shows "packed lcd True (r \<noteq> 0) nib
           (uint (word_of_int (uint (marshal4Bits lcd nib)
                               OR push_bit (nat (rsPin lcd)) (uint r)) :: byte)
            OR push_bit (nat (strbPin lcd)) 1 OR LCD_BACKLIGHT lcd)"
proof -
  note d = expander_wiringD [OF w]
  show ?thesis
    unfolding packed_def bit_strobe_high bit_i2c_arg [OF r] bit_marshal4Bits
    using d by simp
qed

lemma packed_low:
  assumes w: "expander_wiring lcd" and r: "(r::byte) \<le> 1"
  shows "packed lcd False (r \<noteq> 0) nib
           (uint (word_of_int (uint (marshal4Bits lcd nib)
                               OR push_bit (nat (rsPin lcd)) (uint r)) :: byte)
            OR LCD_BACKLIGHT lcd)"
proof -
  note d = expander_wiringD [OF w]
  show ?thesis
    unfolding packed_def bit_strobe_low bit_i2c_arg [OF r] bit_marshal4Bits
    using d by simp
qed

lemma packed_nibble_high:
  assumes w: "expander_wiring lcd"
  shows "packed lcd True False nib
           (uint (marshal4Bits lcd nib) OR push_bit (nat (strbPin lcd)) 1 OR LCD_BACKLIGHT lcd)"
proof -
  note d = expander_wiringD [OF w]
  show ?thesis
    unfolding packed_def bit_strobe_high bit_marshal4Bits
    using d by simp
qed

lemma packed_nibble_low:
  assumes w: "expander_wiring lcd"
  shows "packed lcd False False nib (uint (marshal4Bits lcd nib) OR LCD_BACKLIGHT lcd)"
proof -
  note d = expander_wiringD [OF w]
  show ?thesis
    unfolding packed_def bit_strobe_low bit_marshal4Bits
    using d by simp
qed

lemma put4Command_i2c:
  assumes "i2c_fd lcd \<noteq> 0" and "expander_wiring lcd"
  shows "\<exists>h l. put4Command lcd v =
           [I2CWrite (i2c_fd lcd) h, DelayMicroseconds 50,
            I2CWrite (i2c_fd lcd) l, DelayMicroseconds 50] \<and>
         packed lcd True False v h \<and> packed lcd False False v l"
  using assms packed_nibble_high [of lcd v] packed_nibble_low [of lcd v]
  by (simp add: put4Command_def i2c_send_def)

lemma put4Command_gpio:
  "i2c_fd lcd = 0 \<Longrightarrow> put4Command lcd v =
     [DigitalWrite (rsPin lcd) 0,
      DigitalWrite (dataPins lcd ! 0) (uint (v AND 1)),
      DigitalWrite (dataPins lcd ! 1) (uint (drop_bit 1 v AND 1)),
      DigitalWrite (dataPins lcd ! 2) (uint (drop_bit 2 v AND 1)),
      DigitalWrite (dataPins lcd ! 3) (uint (drop_bit 3 v AND 1)),
      DigitalWrite (strbPin lcd) 1, DelayMicroseconds 50,
      DigitalWrite (strbPin lcd) 0, DelayMicroseconds 50]"
  by (simp add: put4Command_def strobe_def write_pins_numeral
      numeral_2_eq_2 [symmetric] numeral_3_eq_3 [symmetric])

subsection \<open>The example displays\<close>

lemma find_slot_numeral:
  "find_slot tbl i (numeral k) =
     (if tbl ! i = None then int i else find_slot tbl (Suc i) (pred_numeral k))"
  by (simp add: numeral_eq_Suc)

lemma init_pins_numeral:
  "init_pins lcd i (numeral k) =
     DigitalWrite (dataPins lcd ! i) 0 # PinModeOutput (dataPins lcd ! i) #
     init_pins lcd (Suc i) (pred_numeral k)"
  by (simp add: numeral_eq_Suc)

lemma gpio4_get: "get_lcd gpio4_state 0 = Inr gpio4_lcd"
  by code_simp

lemma i2c_get: "get_lcd i2c_state 0 = Inr i2c_lcd"
  by code_simp

lemma i2c_wiring: "expander_wiring i2c_lcd"
  by (simp add: expander_wiring_def expander_lines_def i2c_lcd_def)

section \<open>The initialisation sequence on a four-line bus\<close>

lemma reinit_four_bit_trace:
  assumes "get_lcd s fd = Inr lcd" and "bits lcd = 4"
  shows "\<exists>s' b rest wrest. lcdReinit s fd = Inr s' \<and>
     trace s' = trace s @ put4Command lcd 3 @ [Delay 35] @ put4Command lcd 3 @ [Delay 35]
        @ put4Command lcd 3 @ [Delay 35] @ put4Command lcd 2 @ [Delay 35]
        @ sendDataCmd lcd b 0 @ [Delay 2] @ rest \<and>
     wire s' = wire s @ [Nibble 3, Nibble 3, Nibble 3, Nibble 2] @ Whole 0 b # wrest"
  using assms
  by (simp add: lcdReinit_def lcdDisplay_def lcdCursor_def lcdCursorBlink_def lcdClear_def
      Let_def get_lcd_set_lcd_same reinit_lines_def reinit_func_set_def lcd_consts
      putCommand_def)

text \<open>
  C1. On a handle whose bus width is 4, \<open>lcdReinit\<close> returns, and what it adds to the
  trace begins with four calls of \<open>put4Command\<close>, with the nibbles 3, 3, 3 and 2, each
  followed by a delay of 35 ms; the next thing on the bus is a whole command byte, sent by
  \<open>sendDataCmd\<close> with RS 0. On GPIO a nibble write drives the RS pin low, puts the four
  bits on the data pins and strobes; on I2C, with the seven lines on different bits of the
  expander byte, it is two bytes, strobe high then low, whose RS bit is clear and whose
  data bits are those of the nibble.
\<close>

theorem lcdReinit_four_bit_prologue:
  assumes "get_lcd s fd = Inr lcd" and "bits lcd = 4"
  shows "(\<exists>s' b rest wrest. lcdReinit s fd = Inr s' \<and>
           trace s' = trace s
              @ put4Command lcd 3 @ [Delay 35] @ put4Command lcd 3 @ [Delay 35]
              @ put4Command lcd 3 @ [Delay 35] @ put4Command lcd 2 @ [Delay 35]
              @ sendDataCmd lcd b 0 @ [Delay 2] @ rest \<and>
           wire s' = wire s @ [Nibble 3, Nibble 3, Nibble 3, Nibble 2] @ Whole 0 b # wrest) \<and>
         (i2c_fd lcd = 0 \<longrightarrow>
            put4Command lcd 3 =
              [DigitalWrite (rsPin lcd) 0,
               DigitalWrite (dataPins lcd ! 0) 1, DigitalWrite (dataPins lcd ! 1) 1,
               DigitalWrite (dataPins lcd ! 2) 0, DigitalWrite (dataPins lcd ! 3) 0,
               DigitalWrite (strbPin lcd) 1, DelayMicroseconds 50,
               DigitalWrite (strbPin lcd) 0, DelayMicroseconds 50] \<and>
            put4Command lcd 2 =
              [DigitalWrite (rsPin lcd) 0,
               DigitalWrite (dataPins lcd ! 0) 0, DigitalWrite (dataPins lcd ! 1) 1,
               DigitalWrite (dataPins lcd ! 2) 0, DigitalWrite (dataPins lcd ! 3) 0,
               DigitalWrite (strbPin lcd) 1, DelayMicroseconds 50,
               DigitalWrite (strbPin lcd) 0, DelayMicroseconds 50]) \<and>
         (i2c_fd lcd \<noteq> 0 \<and> expander_wiring lcd \<longrightarrow>
            (\<exists>h3 l3 h2 l2.
               put4Command lcd 3 =
                 [I2CWrite (i2c_fd lcd) h3, DelayMicroseconds 50,
                  I2CWrite (i2c_fd lcd) l3, DelayMicroseconds 50] \<and>
               packed lcd True False 3 h3 \<and> packed lcd False False 3 l3 \<and>
               put4Command lcd 2 =
                 [I2CWrite (i2c_fd lcd) h2, DelayMicroseconds 50,
                  I2CWrite (i2c_fd lcd) l2, DelayMicroseconds 50] \<and>
               packed lcd True False 2 h2 \<and> packed lcd False False 2 l2))"
proof (intro conjI impI)
  show "\<exists>s' b rest wrest. lcdReinit s fd = Inr s' \<and>
           trace s' = trace s
              @ put4Command lcd 3 @ [Delay 35] @ put4Command lcd 3 @ [Delay 35]
              @ put4Command lcd 3 @ [Delay 35] @ put4Command lcd 2 @ [Delay 35]
              @ sendDataCmd lcd b 0 @ [Delay 2] @ rest \<and>
           wire s' = wire s @ [Nibble 3, Nibble 3, Nibble 3, Nibble 2] @ Whole 0 b # wrest"
    using assms by (rule reinit_four_bit_trace)
next
  assume "i2c_fd lcd = 0"
  then show "put4Command lcd 3 =
              [DigitalWrite (rsPin lcd) 0,
               DigitalWrite (dataPins lcd ! 0) 1, DigitalWrite (dataPins lcd ! 1) 1,
               DigitalWrite (dataPins lcd ! 2) 0, DigitalWrite (dataPins lcd ! 3) 0,
               DigitalWrite (strbPin lcd) 1, DelayMicroseconds 50,
               DigitalWrite (strbPin lcd) 0, DelayMicroseconds 50]"
    by (simp add: put4Command_gpio)
next
  assume "i2c_fd lcd = 0"
  then show "put4Command lcd 2 =
              [DigitalWrite (rsPin lcd) 0,
               DigitalWrite (dataPins lcd ! 0) 0, DigitalWrite (dataPins lcd ! 1) 1,
               DigitalWrite (dataPins lcd ! 2) 0, DigitalWrite (dataPins lcd ! 3) 0,
               DigitalWrite (strbPin lcd) 1, DelayMicroseconds 50,
               DigitalWrite (strbPin lcd) 0, DelayMicroseconds 50]"
    by (simp add: put4Command_gpio)
next
  assume a: "i2c_fd lcd \<noteq> 0 \<and> expander_wiring lcd"
  from a put4Command_i2c [of lcd 3] obtain h3 l3 where
    h3: "put4Command lcd 3 =
           [I2CWrite (i2c_fd lcd) h3, DelayMicroseconds 50,
            I2CWrite (i2c_fd lcd) l3, DelayMicroseconds 50]"
      "packed lcd True False 3 h3" "packed lcd False False 3 l3"
    by blast
  from a put4Command_i2c [of lcd 2] obtain h2 l2 where
    h2: "put4Command lcd 2 =
           [I2CWrite (i2c_fd lcd) h2, DelayMicroseconds 50,
            I2CWrite (i2c_fd lcd) l2, DelayMicroseconds 50]"
      "packed lcd True False 2 h2" "packed lcd False False 2 l2"
    by blast
  from h3 h2 show "\<exists>h3 l3 h2 l2.
               put4Command lcd 3 =
                 [I2CWrite (i2c_fd lcd) h3, DelayMicroseconds 50,
                  I2CWrite (i2c_fd lcd) l3, DelayMicroseconds 50] \<and>
               packed lcd True False 3 h3 \<and> packed lcd False False 3 l3 \<and>
               put4Command lcd 2 =
                 [I2CWrite (i2c_fd lcd) h2, DelayMicroseconds 50,
                  I2CWrite (i2c_fd lcd) l2, DelayMicroseconds 50] \<and>
               packed lcd True False 2 h2 \<and> packed lcd False False 2 l2"
    by blast
qed

theorem lcdReinit_four_bit_prologue_witness:
  "get_lcd gpio4_state 0 = Inr gpio4_lcd \<and> bits gpio4_lcd = 4 \<and> i2c_fd gpio4_lcd = 0 \<and>
   (\<exists>s' b rest wrest. lcdReinit gpio4_state 0 = Inr s' \<and>
      trace s' = trace gpio4_state
         @ put4Command gpio4_lcd 3 @ [Delay 35] @ put4Command gpio4_lcd 3 @ [Delay 35]
         @ put4Command gpio4_lcd 3 @ [Delay 35] @ put4Command gpio4_lcd 2 @ [Delay 35]
         @ sendDataCmd gpio4_lcd b 0 @ [Delay 2] @ rest \<and>
      wire s' = wire gpio4_state @ [Nibble 3, Nibble 3, Nibble 3, Nibble 2] @ Whole 0 b # wrest) \<and>
   put4Command gpio4_lcd 3 =
     [DigitalWrite 11 0, DigitalWrite 0 1, DigitalWrite 1 1, DigitalWrite 2 0,
      DigitalWrite 3 0, DigitalWrite 10 1, DelayMicroseconds 50,
      DigitalWrite 10 0, DelayMicroseconds 50] \<and>
   get_lcd i2c_state 0 = Inr i2c_lcd \<and> bits i2c_lcd = 4 \<and>
   i2c_fd i2c_lcd \<noteq> 0 \<and> expander_wiring i2c_lcd \<and>
   (\<exists>h3 l3. put4Command i2c_lcd 3 =
        [I2CWrite 5 h3, DelayMicroseconds 50, I2CWrite 5 l3, DelayMicroseconds 50] \<and>
      packed i2c_lcd True False 3 h3 \<and> packed i2c_lcd False False 3 l3)"
proof -
  have g: "get_lcd gpio4_state 0 = Inr gpio4_lcd" "bits gpio4_lcd = 4" "i2c_fd gpio4_lcd = 0"
    by (simp_all add: gpio4_get gpio4_lcd_def)
  have i: "get_lcd i2c_state 0 = Inr i2c_lcd" "bits i2c_lcd = 4"
    "i2c_fd i2c_lcd \<noteq> 0 \<and> expander_wiring i2c_lcd"
    by (simp_all add: i2c_get i2c_wiring) (simp_all add: i2c_lcd_def)
  have q: "i2c_fd i2c_lcd = 5" by (simp add: i2c_lcd_def)
  note G = lcdReinit_four_bit_prologue [OF g(1,2)]
  note I = lcdReinit_four_bit_prologue [OF i(1,2)]
  from G have G1: "\<exists>s' b rest wrest. lcdReinit gpio4_state 0 = Inr s' \<and>
      trace s' = trace gpio4_state
         @ put4Command gpio4_lcd 3 @ [Delay 35] @ put4Command gpio4_lcd 3 @ [Delay 35]
         @ put4Command gpio4_lcd 3 @ [Delay 35] @ put4Command gpio4_lcd 2 @ [Delay 35]
         @ sendDataCmd gpio4_lcd b 0 @ [Delay 2] @ rest \<and>
      wire s' = wire gpio4_state @ [Nibble 3, Nibble 3, Nibble 3, Nibble 2] @ Whole 0 b # wrest"
    by (rule conjunct1)
  from G g(3) have "put4Command gpio4_lcd 3 =
     [DigitalWrite (rsPin gpio4_lcd) 0,
      DigitalWrite (dataPins gpio4_lcd ! 0) 1, DigitalWrite (dataPins gpio4_lcd ! 1) 1,
      DigitalWrite (dataPins gpio4_lcd ! 2) 0, DigitalWrite (dataPins gpio4_lcd ! 3) 0,
      DigitalWrite (strbPin gpio4_lcd) 1, DelayMicroseconds 50,
      DigitalWrite (strbPin gpio4_lcd) 0, DelayMicroseconds 50]"
    by blast
  then have G2: "put4Command gpio4_lcd 3 =
     [DigitalWrite 11 0, DigitalWrite 0 1, DigitalWrite 1 1, DigitalWrite 2 0,
      DigitalWrite 3 0, DigitalWrite 10 1, DelayMicroseconds 50,
      DigitalWrite 10 0, DelayMicroseconds 50]"
    by (simp add: gpio4_lcd_def)
  from I i(3) have I3: "\<exists>h3 l3. put4Command i2c_lcd 3 =
        [I2CWrite 5 h3, DelayMicroseconds 50, I2CWrite 5 l3, DelayMicroseconds 50] \<and>
      packed i2c_lcd True False 3 h3 \<and> packed i2c_lcd False False 3 l3"
    unfolding q by blast
  from g i G1 G2 I3 show ?thesis by blast
qed

lemma wide_get: "get_lcd wide_state 0 = Inr wide_lcd"
  by code_simp

lemma lcdControl_emit [simp]: "lcdControl (emit es s) = lcdControl s"
  by (simp add: emit_def)

lemma lcdControl_do_putCommand [simp]: "lcdControl (do_putCommand l c s) = lcdControl s"
  by (simp add: do_putCommand_def)

lemma lcdControl_do_put4Command [simp]: "lcdControl (do_put4Command l c s) = lcdControl s"
  by (simp add: do_put4Command_def)

lemma lcdControl_do_sendDataCmd [simp]: "lcdControl (do_sendDataCmd l c r s) = lcdControl s"
  by (simp add: do_sendDataCmd_def)

lemma lcdControl_set_lcd [simp]: "lcdControl (set_lcd fd l s) = lcdControl s"
  by (simp add: set_lcd_def)

lemma initialised_emit [simp]: "initialised (emit es s) = initialised s"
  by (simp add: emit_def)

lemma initialised_do_putCommand [simp]: "initialised (do_putCommand l c s) = initialised s"
  by (simp add: do_putCommand_def)

lemma initialised_do_put4Command [simp]: "initialised (do_put4Command l c s) = initialised s"
  by (simp add: do_put4Command_def)

lemma initialised_do_sendDataCmd [simp]:
  "initialised (do_sendDataCmd l c r s) = initialised s"
  by (simp add: do_sendDataCmd_def)

lemma initialised_set_lcd [simp]: "initialised (set_lcd fd l s) = initialised s"
  by (simp add: set_lcd_def)

lemma initialised_set_control [simp]: "initialised (set_control f st s) = initialised s"
  by (simp add: set_control_def)

lemma lcds_emit [simp]: "lcds (emit es s) = lcds s"
  by (simp add: emit_def)

lemma lcds_do_putCommand [simp]: "lcds (do_putCommand l c s) = lcds s"
  by (simp add: do_putCommand_def)

lemma lcds_do_put4Command [simp]: "lcds (do_put4Command l c s) = lcds s"
  by (simp add: do_put4Command_def)

lemma lcds_do_sendDataCmd [simp]: "lcds (do_sendDataCmd l c r s) = lcds s"
  by (simp add: do_sendDataCmd_def)

lemma lcds_set_control [simp]: "lcds (set_control f st s) = lcds s"
  by (simp add: set_control_def)

section \<open>Cursor positioning\<close>

lemma or_128: "0 \<le> v \<Longrightarrow> v < 128 \<Longrightarrow> (128::int) OR v = 128 + v"
proof -
  assume "0 \<le> v" "v < 128"
  then have v: "take_bit 7 v = v" by (simp add: take_bit_int_eq_self)
  have "(2::int) ^ n AND take_bit n v = 0" for n
    by (rule bit_eqI) (auto simp: bit_simps)
  then have "(2::int) ^ 7 + take_bit 7 v = 2 ^ 7 OR take_bit 7 v"
    by (rule disjunctive_add_eq_or)
  with v show ?thesis by simp
qed

lemma rowOff_at_cases:
  "rowOff_at y = Inr off \<longleftrightarrow>
     (y = 0 \<and> off = 0) \<or> (y = 1 \<and> off = 0x40) \<or> (y = 2 \<and> off = 0x14) \<or> (y = 3 \<and> off = 0x54)"
proof -
  have "0 \<le> y \<and> y < 4 \<longleftrightarrow> y = 0 \<or> y = 1 \<or> y = 2 \<or> y = 3" by arith
  then show ?thesis
    by (auto simp: rowOff_at_def rowOff_def)
qed

lemma rowOff_at_Inr: "0 \<le> y \<Longrightarrow> y < 4 \<Longrightarrow> rowOff_at y = Inr (rowOff ! nat y)"
  by (simp add: rowOff_at_def)

lemma rowOff_bounds: "0 \<le> y \<Longrightarrow> y < 4 \<Longrightarrow> 0 \<le> rowOff ! nat y \<and> rowOff ! nat y \<le> 0x54"
proof -
  assume "0 \<le> y" "y < 4"
  then have "y = 0 \<or> y = 1 \<or> y = 2 \<or> y = 3" by arith
  then show ?thesis by (auto simp: rowOff_def)
qed

lemma ddram_command:
  assumes "0 \<le> y" "y < 4" "0 \<le> x" "x \<le> 20"
  shows "x + (LCD_DGRAM OR rowOff ! nat y) = 0x80 OR (rowOff ! nat y + x)"
    and "x + (LCD_DGRAM OR rowOff ! nat y) \<le> INT_MAX"
  using assms rowOff_bounds [of y]
  by (simp_all add: LCD_DGRAM_def or_128 INT_MAX_def)

text \<open>
  What \<open>lcdPosition\<close> does where its read of \<open>rowOff\<close> is inside the table, on a handle
  with at most 20 columns: a pair that fails a range test leaves the state unchanged, and
  a pair that passes with \<open>y < 4\<close> sends the one command byte \<open>0x80 | (rowOff [y] + x)\<close>
  with RS 0, waits 2 ms, and leaves \<open>cx = x\<close> and \<open>cy = y\<close>.
\<close>

lemma lcdPosition_effect:
  assumes "get_lcd s fd = Inr lcd" and "cols lcd \<le> 20"
  shows "(x < 0 \<or> cols lcd < x \<or> y < 0 \<or> rows lcd < y \<longrightarrow> lcdPosition s fd x y = Inr s) \<and>
         (0 \<le> x \<and> x \<le> cols lcd \<and> 0 \<le> y \<and> y \<le> rows lcd \<and> y < 4 \<longrightarrow>
            (\<exists>s'. lcdPosition s fd x y = Inr s' \<and>
               get_lcd s' fd = Inr (lcd\<lparr>cx := x, cy := y\<rparr>) \<and>
               trace s' = trace s
                  @ sendDataCmd lcd (word_of_int (0x80 OR (rowOff ! nat y + x))) 0 @ [Delay 2] \<and>
               wire s' = wire s @ [Whole 0 (word_of_int (0x80 OR (rowOff ! nat y + x)))] \<and>
               lcdControl s' = lcdControl s))"
proof (intro conjI impI)
  assume "x < 0 \<or> cols lcd < x \<or> y < 0 \<or> rows lcd < y"
  with assms(1) show "lcdPosition s fd x y = Inr s"
    by (auto simp: lcdPosition_def)
next
  assume a: "0 \<le> x \<and> x \<le> cols lcd \<and> 0 \<le> y \<and> y \<le> rows lcd \<and> y < 4"
  with assms(2) have x: "0 \<le> x" "x \<le> 20" and y: "0 \<le> y" "y < 4" by simp_all
  note c = ddram_command [OF y x]
  from a assms(1) c(2) have
    "lcdPosition s fd x y =
       Inr (set_lcd fd (lcd\<lparr>cx := x, cy := y\<rparr>)
             (do_putCommand lcd (word_of_int (x + (LCD_DGRAM OR rowOff ! nat y))) s))"
    by (simp add: lcdPosition_def rowOff_at_Inr)
  with assms(1) show "\<exists>s'. lcdPosition s fd x y = Inr s' \<and>
               get_lcd s' fd = Inr (lcd\<lparr>cx := x, cy := y\<rparr>) \<and>
               trace s' = trace s
                  @ sendDataCmd lcd (word_of_int (0x80 OR (rowOff ! nat y + x))) 0 @ [Delay 2] \<and>
               wire s' = wire s @ [Whole 0 (word_of_int (0x80 OR (rowOff ! nat y + x)))] \<and>
               lcdControl s' = lcdControl s"
    by (simp add: c(1) get_lcd_set_lcd_same putCommand_def)
qed

lemma lcdPosition_effect_example:
  "get_lcd wide_state 0 = Inr wide_lcd \<and> cols wide_lcd \<le> 20 \<and>
   lcdPosition wide_state 0 21 0 = Inr wide_state \<and>
   (\<exists>s'. lcdPosition wide_state 0 5 3 = Inr s' \<and>
      get_lcd s' 0 = Inr (wide_lcd\<lparr>cx := 5, cy := 3\<rparr>) \<and>
      trace s' = trace wide_state @ sendDataCmd wide_lcd 0xD9 0 @ [Delay 2] \<and>
      wire s' = wire wide_state @ [Whole 0 0xD9])"
proof -
  have h: "get_lcd wide_state 0 = Inr wide_lcd" "cols wide_lcd \<le> 20"
    by (simp_all add: wide_get) (simp add: wide_lcd_def)
  have r: "cols wide_lcd = 20" "rows wide_lcd = 4" by (simp_all add: wide_lcd_def)
  have b: "(word_of_int (0x80 OR (rowOff ! nat 3 + 5)) :: byte) = 0xD9"
    by (simp add: rowOff_def)
  from lcdPosition_effect [OF h, of 21 0] r
  have 1: "lcdPosition wide_state 0 21 0 = Inr wide_state" by simp
  from lcdPosition_effect [OF h, of 5 3] r b
  have 2: "\<exists>s'. lcdPosition wide_state 0 5 3 = Inr s' \<and>
      get_lcd s' 0 = Inr (wide_lcd\<lparr>cx := 5, cy := 3\<rparr>) \<and>
      trace s' = trace wide_state @ sendDataCmd wide_lcd 0xD9 0 @ [Delay 2] \<and>
      wire s' = wire wide_state @ [Whole 0 0xD9]"
    by auto
  from h 1 2 show ?thesis by blast
qed

text \<open>
  C2. \<open>lcdPosition\<close> is to ignore a pair outside the display and to send the command
  byte \<open>0x80 | (rowOff [y] + x)\<close> for every other pair. On a 20x4 display the pair (0,5)
  is ignored, but the pair (0,4), a row more than the display has, passes the test
  \<open>y > rows\<close>; the function then reads \<open>rowOff [4]\<close>, which the four-entry table does not
  have, so that no command byte is defined and none is sent.
\<close>

theorem lcdPosition_row_past_display:
  "get_lcd wide_state 0 = Inr wide_lcd \<and> rows wide_lcd = 4 \<and> cols wide_lcd = 20 \<and>
   length rowOff = 4 \<and>
   lcdPosition wide_state 0 0 5 = Inr wide_state \<and>
   lcdPosition wide_state 0 0 4 = Inl (RowOffOutOfBounds 4)"
  by (simp add: wide_get lcdPosition_def rowOff_at_def) (simp add: wide_lcd_def rowOff_def)

lemma lcdPosition_accepted:
  assumes "get_lcd s fd = Inr lcd" and "cols lcd \<le> 20"
    and "0 \<le> x" and "x \<le> cols lcd" and "0 \<le> y" and "y \<le> rows lcd" and "y < 4"
  shows "lcdPosition s fd x y =
           Inr (set_lcd fd (lcd\<lparr>cx := x, cy := y\<rparr>)
                 (do_putCommand lcd (word_of_int (0x80 OR (rowOff ! nat y + x))) s))"
proof -
  from assms have x: "0 \<le> x" "x \<le> 20" and y: "0 \<le> y" "y < 4" by simp_all
  note c = ddram_command [OF y x]
  from assms c(2) show ?thesis
    by (simp add: lcdPosition_def rowOff_at_Inr c(1))
qed

lemma set_lcd_same:
  "get_lcd s fd = Inr lcd \<Longrightarrow> lcds (set_lcd fd lcd s) = lcds s"
  by (simp add: get_lcd_Inr set_lcd_def list_update_same_conv)

lemma lcdDataStruct_cursor_idem [simp]:
  "(l\<lparr>cx := x, cy := y\<rparr>)\<lparr>cx := x, cy := y\<rparr> = l\<lparr>cx := x, cy := y\<rparr>"
  by simp

lemma bit_set_ddram: "bit (word_of_int (0x80 OR v) :: byte) 7"
  by (simp add: bit_word_of_int_iff bit_or_iff)

section \<open>Positioning twice\<close>

text \<open>
  Two calls of \<open>lcdPosition\<close> with the same pair, where the read of \<open>rowOff\<close> is inside
  the table (a pair that the function accepts, with \<open>y < 4\<close>): each call adds the same
  events, the transmission of the same set DDRAM address byte, and after the second call
  the handle table, the control shadow and the flag are what they were after the first.
\<close>

lemma lcdPosition_twice:
  assumes "get_lcd s fd = Inr lcd" and "cols lcd \<le> 20"
    and "0 \<le> x" and "x \<le> cols lcd" and "0 \<le> y" and "y \<le> rows lcd" and "y < 4"
  shows "\<exists>s1 s2 b. lcdPosition s fd x y = Inr s1 \<and> lcdPosition s1 fd x y = Inr s2 \<and>
           bit b 7 \<and>
           added (trace s) (trace s1) = putCommand lcd b \<and>
           added (trace s1) (trace s2) = putCommand lcd b \<and>
           added (wire s) (wire s1) = [Whole 0 b] \<and>
           added (wire s1) (wire s2) = [Whole 0 b] \<and>
           get_lcd s1 fd = Inr (lcd\<lparr>cx := x, cy := y\<rparr>) \<and>
           lcds s2 = lcds s1 \<and> lcdControl s2 = lcdControl s1 \<and>
           initialised s2 = initialised s1"
proof -
  define b :: byte where "b = word_of_int (0x80 OR (rowOff ! nat y + x))"
  define lcd1 where "lcd1 = lcd\<lparr>cx := x, cy := y\<rparr>"
  define s1 where "s1 = set_lcd fd lcd1 (do_putCommand lcd b s)"
  define s2 where "s2 = set_lcd fd lcd1 (do_putCommand lcd1 b s1)"
  have 1: "lcdPosition s fd x y = Inr s1"
    unfolding s1_def lcd1_def b_def using assms by (rule lcdPosition_accepted)
  have g1: "get_lcd s1 fd = Inr lcd1"
    using assms(1) by (simp add: s1_def get_lcd_set_lcd_same)
  have "lcdPosition s1 fd x y =
          Inr (set_lcd fd (lcd1\<lparr>cx := x, cy := y\<rparr>) (do_putCommand lcd1 b s1))"
    unfolding b_def using g1 assms(2-7)
    by (intro lcdPosition_accepted) (simp_all add: lcd1_def)
  then have 2: "lcdPosition s1 fd x y = Inr s2"
    by (simp add: s2_def lcd1_def)
  have l: "lcds s2 = lcds s1"
    using g1 by (simp add: s2_def set_lcd_same)
  have "bit b 7" unfolding b_def by (rule bit_set_ddram)
  with 1 2 g1 l show ?thesis
    by (simp add: s1_def s2_def lcd1_def added_def)
qed

lemma lcdPosition_twice_example:
  "get_lcd wide_state 0 = Inr wide_lcd \<and> cols wide_lcd \<le> 20 \<and>
   (0::int) \<le> 5 \<and> 5 \<le> cols wide_lcd \<and> (0::int) \<le> 3 \<and> 3 \<le> rows wide_lcd \<and> (3::int) < 4 \<and>
   (\<exists>s1 s2 b. lcdPosition wide_state 0 5 3 = Inr s1 \<and> lcdPosition s1 0 5 3 = Inr s2 \<and>
      bit b 7 \<and>
      added (trace wide_state) (trace s1) = putCommand wide_lcd b \<and>
      added (trace s1) (trace s2) = putCommand wide_lcd b \<and>
      added (wire wide_state) (wire s1) = [Whole 0 b] \<and>
      added (wire s1) (wire s2) = [Whole 0 b] \<and>
      get_lcd s1 0 = Inr (wide_lcd\<lparr>cx := 5, cy := 3\<rparr>) \<and>
      lcds s2 = lcds s1 \<and> lcdControl s2 = lcdControl s1 \<and>
      initialised s2 = initialised s1)"
proof -
  have h: "get_lcd wide_state 0 = Inr wide_lcd" "cols wide_lcd \<le> 20"
    "(0::int) \<le> 5" "5 \<le> cols wide_lcd" "(0::int) \<le> 3" "3 \<le> rows wide_lcd" "(3::int) < 4"
    by (simp_all add: wide_get) (simp_all add: wide_lcd_def)
  from lcdPosition_twice [OF h] h show ?thesis by blast
qed

text \<open>
  C8. Two calls of \<open>lcdPosition\<close> with the same in-range pair are to send the same set
  DDRAM address command twice. On the display of five rows and one column, which the
  factory accepts, the pair (0,4) is in range (\<open>0 \<le> 0 < cols\<close> and \<open>0 \<le> 4 < rows\<close>), and
  already the first call reads \<open>rowOff [4]\<close>, outside the four-entry table: no command is
  defined and none is sent.
\<close>

theorem lcdPosition_twice_row_four:
  "fst (lcdNew tall_config True 0 boot) = 0 \<and> get_lcd tall_state 0 = Inr tall_lcd \<and>
   (0::int) \<le> 0 \<and> 0 < cols tall_lcd \<and> (0::int) \<le> 4 \<and> 4 < rows tall_lcd \<and>
   length rowOff = 4 \<and>
   lcdPosition tall_state 0 0 4 = Inl (RowOffOutOfBounds 4) \<and>
   exec_all [Position 0 0 4, Position 0 0 4] tall_state = Inl (RowOffOutOfBounds 4)"
  by code_simp

section \<open>Writing characters\<close>

lemma lcdPutchar_advance:
  assumes "get_lcd s fd = Inr lcd" and "cx lcd < INT_MAX" and "cx lcd + 1 \<noteq> cols lcd"
  shows "lcdPutchar s fd c =
           Inr (set_lcd fd (lcd\<lparr>cx := cx lcd + 1\<rparr>) (do_sendDataCmd lcd c 1 s))"
  using assms by (simp add: lcdPutchar_def Let_def)

lemma lcdPutchar_wrap:
  assumes "get_lcd s fd = Inr lcd" and "cx lcd < INT_MAX" and "cx lcd + 1 = cols lcd"
    and "cy lcd < INT_MAX"
    and "cy' = (if cy lcd + 1 = rows lcd then 0 else cy lcd + 1)"
    and "0 \<le> cy'" and "cy' < 4"
  shows "lcdPutchar s fd c =
           Inr (do_putCommand lcd (word_of_int (0x80 OR rowOff ! nat cy'))
                 (set_lcd fd (lcd\<lparr>cx := 0, cy := cy'\<rparr>) (do_sendDataCmd lcd c 1 s)))"
proof -
  have "do_putCommand (lcd\<lparr>cx := 0, cy := cy'\<rparr>) b t = do_putCommand lcd b t" for b t
    by (simp add: do_putCommand_def)
  with assms show ?thesis
    by (simp add: lcdPutchar_def Let_def rowOff_at_Inr LCD_DGRAM_def)
qed

text \<open>Characters that do not reach the end of the row.\<close>

lemma putchars_in_row:
  assumes "get_lcd s fd = Inr lcd" and "cols lcd \<le> INT_MAX"
    and "cx lcd + int (length cs) < cols lcd"
  shows "\<exists>s'. exec_all (map (Putchar fd) cs) s = Inr s' \<and>
           get_lcd s' fd = Inr (lcd\<lparr>cx := cx lcd + int (length cs)\<rparr>) \<and>
           trace s' = trace s @ concat (map (\<lambda>c. sendDataCmd lcd c 1) cs) \<and>
           wire s' = wire s @ map (Whole 1) cs"
  using assms
proof (induction cs arbitrary: s lcd)
  case Nil
  then show ?case by simp
next
  case (Cons c cs)
  let ?lcd1 = "lcd\<lparr>cx := cx lcd + 1\<rparr>"
  let ?s1 = "set_lcd fd ?lcd1 (do_sendDataCmd lcd c 1 s)"
  from Cons.prems have 1: "lcdPutchar s fd c = Inr ?s1"
    by (intro lcdPutchar_advance) simp_all
  from Cons.prems have g: "get_lcd ?s1 fd = Inr ?lcd1"
    by (simp add: get_lcd_set_lcd_same)
  from Cons.prems have "cols ?lcd1 \<le> INT_MAX" "cx ?lcd1 + int (length cs) < cols ?lcd1"
    by simp_all
  from Cons.IH [OF g this] obtain s' where
    s': "exec_all (map (Putchar fd) cs) ?s1 = Inr s'"
      "get_lcd s' fd = Inr (?lcd1\<lparr>cx := cx ?lcd1 + int (length cs)\<rparr>)"
      "trace s' = trace ?s1 @ concat (map (\<lambda>c. sendDataCmd ?lcd1 c 1) cs)"
      "wire s' = wire ?s1 @ map (Whole 1) cs"
    by blast
  from 1 s' show ?case
    by (simp add: add.assoc)
qed


lemma exec_all_append:
  "exec_all (xs @ ys) s = and_then (exec_all xs s) (exec_all ys)"
  by (induction xs arbitrary: s) (simp_all add: and_then_def split: sum.splits)

lemma putchars_full_row:
  assumes g: "get_lcd s fd = Inr lcd" and c0: "cx lcd = 0" "cy lcd = 0"
    and cols: "1 \<le> cols lcd" "cols lcd \<le> INT_MAX" and rows: "2 \<le> rows lcd"
    and len: "int (length cs) = cols lcd"
  shows "\<exists>s'. exec_all (map (Putchar fd) cs) s = Inr s' \<and>
           get_lcd s' fd = Inr (lcd\<lparr>cx := 0, cy := 1\<rparr>) \<and>
           trace s' = trace s @ concat (map (\<lambda>c. sendDataCmd lcd c 1) cs)
                      @ putCommand lcd 0xC0 \<and>
           wire s' = wire s @ map (Whole 1) cs @ [Whole 0 0xC0]"
proof -
  from cols len have ne: "cs \<noteq> []" by auto
  define ds where "ds = butlast cs"
  define c where "c = last cs"
  from ne have cs: "cs = ds @ [c]" by (simp add: ds_def c_def)
  from len cs c0 have "cx lcd + int (length ds) < cols lcd" by simp
  from putchars_in_row [OF g cols(2) this] obtain s1 where
    s1: "exec_all (map (Putchar fd) ds) s = Inr s1"
      "get_lcd s1 fd = Inr (lcd\<lparr>cx := cx lcd + int (length ds)\<rparr>)"
      "trace s1 = trace s @ concat (map (\<lambda>c. sendDataCmd lcd c 1) ds)"
      "wire s1 = wire s @ map (Whole 1) ds"
    by blast
  let ?lcd1 = "lcd\<lparr>cx := cx lcd + int (length ds)\<rparr>"
  have w: "lcdPutchar s1 fd c =
             Inr (do_putCommand ?lcd1 (word_of_int (0x80 OR rowOff ! nat 1))
                   (set_lcd fd (?lcd1\<lparr>cx := 0, cy := 1\<rparr>) (do_sendDataCmd ?lcd1 c 1 s1)))"
    using s1(2) cols len cs c0 rows
    by (intro lcdPutchar_wrap) (simp_all add: INT_MAX_def)
  have p: "do_putCommand ?lcd1 b t = do_putCommand lcd b t" for b t
    by (simp add: do_putCommand_def putCommand_def)
  have d: "do_sendDataCmd ?lcd1 c 1 t = do_sendDataCmd lcd c 1 t" for t
    by (simp add: do_sendDataCmd_def)
  let ?s' = "do_putCommand lcd 0xC0
               (set_lcd fd (lcd\<lparr>cx := 0, cy := 1\<rparr>) (do_sendDataCmd lcd c 1 s1))"
  from w have w': "lcdPutchar s1 fd c = Inr ?s'"
    by (simp add: p d rowOff_def)
  have "exec_all (map (Putchar fd) cs) s = Inr ?s'"
    by (simp add: cs exec_all_append s1(1) w')
  moreover have "get_lcd ?s' fd = Inr (lcd\<lparr>cx := 0, cy := 1\<rparr>)"
    using s1(2) by (simp add: get_lcd_set_lcd_same)
  moreover have "trace ?s' = trace s @ concat (map (\<lambda>c. sendDataCmd lcd c 1) cs)
                      @ putCommand lcd 0xC0"
    by (simp add: s1(3) cs)
  moreover have "wire ?s' = wire s @ map (Whole 1) cs @ [Whole 0 0xC0]"
    by (simp add: s1(4) cs)
  ultimately show ?thesis by blast
qed

lemma lcdPutchar_step:
  assumes g: "get_lcd s fd = Inr lcd" and x: "cx lcd < INT_MAX"
    and y: "0 \<le> cy lcd" "cy lcd < INT_MAX" "cy lcd + 1 = rows lcd \<or> cy lcd + 1 < 4"
  shows "\<exists>s'. lcdPutchar s fd c = Inr s' \<and>
           (let wrap = (cx lcd + 1 = cols lcd);
                cx' = (if wrap then 0 else cx lcd + 1);
                cy' = (if wrap then (if cy lcd + 1 = rows lcd then 0 else cy lcd + 1)
                       else cy lcd);
                sync = word_of_int (0x80 OR rowOff ! nat cy')
            in get_lcd s' fd = Inr (lcd\<lparr>cx := cx', cy := cy'\<rparr>) \<and>
               trace s' = trace s @ sendDataCmd lcd c 1
                          @ (if wrap then putCommand lcd sync else []) \<and>
               wire s' = wire s @ Whole 1 c # (if wrap then [Whole 0 sync] else []))"
proof (cases "cx lcd + 1 = cols lcd")
  case False
  from lcdPutchar_advance [OF g x False, of c] g False show ?thesis
    by (simp add: get_lcd_set_lcd_same)
next
  case True
  define cy' where "cy' = (if cy lcd + 1 = rows lcd then 0 else cy lcd + 1)"
  from y have "0 \<le> cy'" "cy' < 4" by (auto simp: cy'_def)
  from lcdPutchar_wrap [OF g x True y(2) cy'_def this, of c] g True show ?thesis
    by (simp add: get_lcd_set_lcd_same cy'_def)
qed

text \<open>
  On a handle with at least one column and two rows and the cursor at (0,0), \<open>cols\<close>
  calls of \<open>lcdPutchar\<close> return and leave the cursor at (0,1); the trace grows by the
  \<open>cols\<close> data writes and then the command \<open>0xC0\<close>, which is \<open>0x80 | rowOff [1]\<close>. One
  call of \<open>lcdPutchar\<close>, where the read of \<open>rowOff\<close> is inside the table and no \<open>int\<close>
  overflows, sends its byte with RS 1 and increments \<open>cx\<close>; when \<open>cx\<close> reaches \<open>cols\<close> it
  sets \<open>cx\<close> to 0, increments \<open>cy\<close>, sets it to 0 when it reaches \<open>rows\<close>, and sends the
  set DDRAM address command of the new row.
\<close>

lemma lcdPutchar_wrap_law:
  assumes "get_lcd s fd = Inr lcd"
  shows "(cx lcd = 0 \<and> cy lcd = 0 \<and> 1 \<le> cols lcd \<and> cols lcd \<le> INT_MAX \<and> 2 \<le> rows lcd \<and>
          int (length cs) = cols lcd \<longrightarrow>
            (\<exists>s'. exec_all (map (Putchar fd) cs) s = Inr s' \<and>
               get_lcd s' fd = Inr (lcd\<lparr>cx := 0, cy := 1\<rparr>) \<and>
               trace s' = trace s @ concat (map (\<lambda>c. sendDataCmd lcd c 1) cs)
                          @ putCommand lcd 0xC0 \<and>
               wire s' = wire s @ map (Whole 1) cs @ [Whole 0 0xC0] \<and>
               (0xC0 :: byte) = word_of_int (0x80 OR rowOff ! 1))) \<and>
         (cx lcd < INT_MAX \<and> 0 \<le> cy lcd \<and> cy lcd < INT_MAX \<and>
          (cy lcd + 1 = rows lcd \<or> cy lcd + 1 < 4) \<longrightarrow>
            (\<exists>s'. lcdPutchar s fd c = Inr s' \<and>
               (let wrap = (cx lcd + 1 = cols lcd);
                    cx' = (if wrap then 0 else cx lcd + 1);
                    cy' = (if wrap then (if cy lcd + 1 = rows lcd then 0 else cy lcd + 1)
                           else cy lcd);
                    sync = word_of_int (0x80 OR rowOff ! nat cy')
                in get_lcd s' fd = Inr (lcd\<lparr>cx := cx', cy := cy'\<rparr>) \<and>
                   trace s' = trace s @ sendDataCmd lcd c 1
                              @ (if wrap then putCommand lcd sync else []) \<and>
                   wire s' = wire s @ Whole 1 c # (if wrap then [Whole 0 sync] else []))))"
proof (intro conjI impI)
  assume a: "cx lcd = 0 \<and> cy lcd = 0 \<and> 1 \<le> cols lcd \<and> cols lcd \<le> INT_MAX \<and> 2 \<le> rows lcd \<and>
          int (length cs) = cols lcd"
  have "(0xC0 :: byte) = word_of_int (0x80 OR rowOff ! 1)"
    by (simp add: rowOff_def)
  with a putchars_full_row [OF assms, of cs]
  show "\<exists>s'. exec_all (map (Putchar fd) cs) s = Inr s' \<and>
               get_lcd s' fd = Inr (lcd\<lparr>cx := 0, cy := 1\<rparr>) \<and>
               trace s' = trace s @ concat (map (\<lambda>c. sendDataCmd lcd c 1) cs)
                          @ putCommand lcd 0xC0 \<and>
               wire s' = wire s @ map (Whole 1) cs @ [Whole 0 0xC0] \<and>
               (0xC0 :: byte) = word_of_int (0x80 OR rowOff ! 1)"
    by blast
next
  assume "cx lcd < INT_MAX \<and> 0 \<le> cy lcd \<and> cy lcd < INT_MAX \<and>
          (cy lcd + 1 = rows lcd \<or> cy lcd + 1 < 4)"
  then show "\<exists>s'. lcdPutchar s fd c = Inr s' \<and>
               (let wrap = (cx lcd + 1 = cols lcd);
                    cx' = (if wrap then 0 else cx lcd + 1);
                    cy' = (if wrap then (if cy lcd + 1 = rows lcd then 0 else cy lcd + 1)
                           else cy lcd);
                    sync = word_of_int (0x80 OR rowOff ! nat cy')
                in get_lcd s' fd = Inr (lcd\<lparr>cx := cx', cy := cy'\<rparr>) \<and>
                   trace s' = trace s @ sendDataCmd lcd c 1
                              @ (if wrap then putCommand lcd sync else []) \<and>
                   wire s' = wire s @ Whole 1 c # (if wrap then [Whole 0 sync] else []))"
    using lcdPutchar_step [OF assms, of c] by blast
qed


lemma corner_get: "get_lcd corner_state 0 = Inr corner_lcd"
  by (simp add: corner_state_def get_lcd_set_lcd_same [OF gpio4_get])

lemma lcdPutchar_wrap_law_example:
  "get_lcd gpio4_state 0 = Inr gpio4_lcd \<and>
   cx gpio4_lcd = 0 \<and> cy gpio4_lcd = 0 \<and> 1 \<le> cols gpio4_lcd \<and> cols gpio4_lcd \<le> INT_MAX \<and>
   2 \<le> rows gpio4_lcd \<and> int (length (replicate 16 (0x41 :: byte))) = cols gpio4_lcd \<and>
   (\<exists>s'. exec_all (map (Putchar 0) (replicate 16 0x41)) gpio4_state = Inr s' \<and>
      get_lcd s' 0 = Inr (gpio4_lcd\<lparr>cx := 0, cy := 1\<rparr>) \<and>
      wire s' = wire gpio4_state @ map (Whole 1) (replicate 16 0x41) @ [Whole 0 0xC0]) \<and>
   get_lcd corner_state 0 = Inr corner_lcd \<and>
   cx corner_lcd < INT_MAX \<and> 0 \<le> cy corner_lcd \<and> cy corner_lcd < INT_MAX \<and>
   (cy corner_lcd + 1 = rows corner_lcd \<or> cy corner_lcd + 1 < 4) \<and>
   (\<exists>s'. lcdPutchar corner_state 0 0x41 = Inr s' \<and>
      get_lcd s' 0 = Inr (corner_lcd\<lparr>cx := 0, cy := 0\<rparr>) \<and>
      wire s' = wire corner_state @ [Whole 1 0x41, Whole 0 0x80])"
proof -
  have g: "get_lcd gpio4_state 0 = Inr gpio4_lcd" by (rule gpio4_get)
  have a: "cx gpio4_lcd = 0 \<and> cy gpio4_lcd = 0 \<and> 1 \<le> cols gpio4_lcd \<and>
           cols gpio4_lcd \<le> INT_MAX \<and> 2 \<le> rows gpio4_lcd \<and>
           int (length (replicate 16 (0x41 :: byte))) = cols gpio4_lcd"
    by (simp add: gpio4_lcd_def INT_MAX_def)
  have c: "get_lcd corner_state 0 = Inr corner_lcd" by (rule corner_get)
  have b: "cx corner_lcd < INT_MAX \<and> 0 \<le> cy corner_lcd \<and> cy corner_lcd < INT_MAX \<and>
           (cy corner_lcd + 1 = rows corner_lcd \<or> cy corner_lcd + 1 < 4)"
    by (simp add: corner_lcd_def gpio4_lcd_def INT_MAX_def)
  from lcdPutchar_wrap_law [OF g, of "replicate 16 0x41"] a
  have 1: "\<exists>s'. exec_all (map (Putchar 0) (replicate 16 0x41)) gpio4_state = Inr s' \<and>
      get_lcd s' 0 = Inr (gpio4_lcd\<lparr>cx := 0, cy := 1\<rparr>) \<and>
      wire s' = wire gpio4_state @ map (Whole 1) (replicate 16 0x41) @ [Whole 0 0xC0]"
    by blast
  have v: "cx corner_lcd + 1 = cols corner_lcd" "cy corner_lcd + 1 = rows corner_lcd"
    by (simp_all add: corner_lcd_def gpio4_lcd_def)
  have r: "(word_of_int (0x80 OR rowOff ! nat 0) :: byte) = 0x80"
    by (simp add: rowOff_def)
  from lcdPutchar_wrap_law [OF c, of _ "0x41"] b
  have "\<exists>s'. lcdPutchar corner_state 0 0x41 = Inr s' \<and>
          (let wrap = (cx corner_lcd + 1 = cols corner_lcd);
               cx' = (if wrap then 0 else cx corner_lcd + 1);
               cy' = (if wrap then (if cy corner_lcd + 1 = rows corner_lcd then 0
                                    else cy corner_lcd + 1)
                      else cy corner_lcd);
               sync = word_of_int (0x80 OR rowOff ! nat cy')
           in get_lcd s' 0 = Inr (corner_lcd\<lparr>cx := cx', cy := cy'\<rparr>) \<and>
              trace s' = trace corner_state @ sendDataCmd corner_lcd 0x41 1
                         @ (if wrap then putCommand corner_lcd sync else []) \<and>
              wire s' = wire corner_state @ Whole 1 0x41 # (if wrap then [Whole 0 sync] else []))"
    by blast
  then have 2: "\<exists>s'. lcdPutchar corner_state 0 0x41 = Inr s' \<and>
      get_lcd s' 0 = Inr (corner_lcd\<lparr>cx := 0, cy := 0\<rparr>) \<and>
      wire s' = wire corner_state @ [Whole 1 0x41, Whole 0 0x80]"
    unfolding Let_def v by (simp add: rowOff_def) blast
  from g a 1 c b 2 show ?thesis by blast
qed

text \<open>
  C3. Each \<open>lcdPutchar\<close> is to send its byte and, when \<open>cx\<close> reaches \<open>cols\<close>, to go to
  the next row and send the set DDRAM address command of that row. On the display of five
  rows and one column, which the factory accepts, three calls from (0,0) leave the cursor
  at (0,3); the fourth call wraps to row 4, which is below \<open>rows\<close>, and reads
  \<open>rowOff [4]\<close>, outside the four-entry table: no command is defined and none is sent.
\<close>

theorem lcdPutchar_wrap_row_four:
  "fst (lcdNew tall_config True 0 boot) = 0 \<and> get_lcd tall_state 0 = Inr tall_lcd \<and>
   cols tall_lcd = 1 \<and> rows tall_lcd = 5 \<and> cx tall_lcd = 0 \<and> cy tall_lcd = 0 \<and>
   length rowOff = 4 \<and>
   exec_all [Putchar 0 0x41, Putchar 0 0x42, Putchar 0 0x43] tall_state = Inr tall_row3 \<and>
   get_lcd tall_row3 0 = Inr (tall_lcd\<lparr>cy := 3\<rparr>) \<and>
   lcdPutchar tall_row3 0 0x44 = Inl (RowOffOutOfBounds 4)"
  by code_simp

section \<open>Defining a glyph\<close>

lemma send_rows_frame:
  "lcds (send_rows lcd ds s) = lcds s \<and>
   lcdControl (send_rows lcd ds s) = lcdControl s \<and>
   initialised (send_rows lcd ds s) = initialised s \<and>
   trace (send_rows lcd ds s) = trace s @ concat (map (\<lambda>d. sendDataCmd lcd d 1) ds) \<and>
   wire (send_rows lcd ds s) = wire s @ map (Whole 1) ds"
  by (induction ds arbitrary: s) simp_all

lemma get_lcd_lcds: "lcds s' = lcds s \<Longrightarrow> get_lcd s' fd = get_lcd s fd"
  by (simp add: get_lcd_def)

text \<open>
  C10. \<open>lcdCharDef\<close> on an open handle, with the eight rows of the glyph, returns; the
  handle table (so \<open>cx\<close>, \<open>cy\<close> and \<open>backlight_state\<close> of every handle), the control
  shadow \<open>lcdControl\<close> and the flag \<open>initialised\<close> are what they were before, and the
  trace has grown by the set CGRAM address command and the eight data writes only.
\<close>

theorem lcdCharDef_frame:
  assumes "get_lcd s fd = Inr lcd" and "8 \<le> length data"
  shows "\<exists>s'. lcdCharDef s fd index data = Inr s' \<and>
           lcds s' = lcds s \<and> get_lcd s' fd = Inr lcd \<and>
           lcdControl s' = lcdControl s \<and> initialised s' = initialised s \<and>
           trace s' = trace s
              @ putCommand lcd (word_of_int (0x40 OR push_bit 3 (index AND 7)))
              @ concat (map (\<lambda>d. sendDataCmd lcd d 1) (take 8 data)) \<and>
           wire s' = wire s
              @ Whole 0 (word_of_int (0x40 OR push_bit 3 (index AND 7)))
              # map (Whole 1) (take 8 data)"
  using assms
  by (simp add: lcdCharDef_def send_rows_frame LCD_CGRAM_def
      get_lcd_lcds [of "send_rows lcd (take 8 data) t" t for t])

theorem lcdCharDef_frame_witness:
  "get_lcd corner_state 0 = Inr corner_lcd \<and>
   8 \<le> length [0x0E, 0x11, 0x11, 0x1F, 0x11, 0x11, 0x11, 0x00 :: byte] \<and>
   (\<exists>s'. lcdCharDef corner_state 0 3 [0x0E, 0x11, 0x11, 0x1F, 0x11, 0x11, 0x11, 0x00] = Inr s' \<and>
      lcds s' = lcds corner_state \<and> get_lcd s' 0 = Inr corner_lcd \<and>
      lcdControl s' = lcdControl corner_state \<and> initialised s' = initialised corner_state \<and>
      wire s' = wire corner_state
         @ Whole 0 0x58 # map (Whole 1) [0x0E, 0x11, 0x11, 0x1F, 0x11, 0x11, 0x11, 0x00])"
proof -
  have h: "get_lcd corner_state 0 = Inr corner_lcd"
    "8 \<le> length [0x0E, 0x11, 0x11, 0x1F, 0x11, 0x11, 0x11, 0x00 :: byte]"
    by (simp_all add: corner_get)
  have b: "(word_of_int (0x40 OR push_bit 3 (3 AND 7)) :: byte) = 0x58"
    by simp
  from lcdCharDef_frame [OF h, of 3] h show ?thesis
    unfolding b by auto
qed

section \<open>The factory: which handle it returns\<close>

lemma find_slot_none:
  "find_slot tbl i n = -1 \<longleftrightarrow> (\<forall>j. i \<le> j \<and> j < i + n \<longrightarrow> tbl ! j \<noteq> None)"
proof (induction n arbitrary: i)
  case 0
  show ?case by auto
next
  case (Suc n)
  have r: "i \<le> j \<and> j < i + Suc n \<longleftrightarrow> j = i \<or> (Suc i \<le> j \<and> j < Suc i + n)" for j
    by arith
  have "(\<forall>j. i \<le> j \<and> j < i + Suc n \<longrightarrow> tbl ! j \<noteq> None) \<longleftrightarrow>
        tbl ! i \<noteq> None \<and> (\<forall>j. Suc i \<le> j \<and> j < Suc i + n \<longrightarrow> tbl ! j \<noteq> None)"
    unfolding r by blast
  then show ?case
    by (simp add: Suc.IH)
qed

lemma find_slot_some:
  "find_slot tbl i n \<noteq> -1 \<Longrightarrow>
     \<exists>k. find_slot tbl i n = int k \<and> i \<le> k \<and> k < i + n \<and> tbl ! k = None \<and>
         (\<forall>j. i \<le> j \<and> j < k \<longrightarrow> tbl ! j \<noteq> None)"
proof (induction n arbitrary: i)
  case 0
  then show ?case by simp
next
  case (Suc n)
  show ?case
  proof (cases "tbl ! i = None")
    case True
    then show ?thesis by auto
  next
    case False
    with Suc.prems have "find_slot tbl (Suc i) n \<noteq> -1" by simp
    from Suc.IH [OF this] obtain k where
      k: "find_slot tbl (Suc i) n = int k" "Suc i \<le> k" "k < Suc i + n" "tbl ! k = None"
        "\<forall>j. Suc i \<le> j \<and> j < k \<longrightarrow> tbl ! j \<noteq> None"
      by blast
    have "\<forall>j. i \<le> j \<and> j < k \<longrightarrow> tbl ! j \<noteq> None"
    proof (intro allI impI)
      fix j assume "i \<le> j \<and> j < k"
      then have "j = i \<or> (Suc i \<le> j \<and> j < k)" by arith
      with False k(5) show "tbl ! j \<noteq> None" by blast
    qed
    with False k show ?thesis by auto
  qed
qed

lemma lcdNew_fail:
  "fst (lcdNew config m r s) = -1 \<longleftrightarrow>
     \<not> valid_config config \<or> find_slot (table_seen s) 0 MAX_LCDS = -1 \<or> \<not> m"
  by (auto simp: lcdNew_def valid_config_def table_seen_def Let_def)

lemma lcdNew_slot:
  "fst (lcdNew config m r s) \<noteq> -1 \<Longrightarrow>
     fst (lcdNew config m r s) = find_slot (table_seen s) 0 MAX_LCDS"
  by (auto simp: lcdNew_def valid_config_def table_seen_def Let_def split: if_splits)

lemma lcdNew_table:
  "fst (lcdNew config m r s) \<noteq> -1 \<Longrightarrow>
     \<exists>lcd. lcds (snd (lcdNew config m r s)) =
             (table_seen s)[nat (fst (lcdNew config m r s)) := Some lcd]"
  by (auto simp: lcdNew_def valid_config_def table_seen_def Let_def set_lcd_def
      split: if_splits)


lemma length_table_seen: "length (lcds s) = MAX_LCDS \<Longrightarrow> length (table_seen s) = MAX_LCDS"
  by (simp add: table_seen_def)

text \<open>
  C6. \<open>lcdNew\<close> returns -1 exactly when the configuration fails a range check (bits not
  4 or 8, rows or cols outside 0..20), or no entry of the eight-entry table is null, or
  the allocation fails. Otherwise it returns the lowest index whose entry was null, that
  entry is occupied afterwards, and the other entries are as they were.
\<close>

theorem lcdNew_result:
  assumes "length (lcds s) = MAX_LCDS"
  shows "(fst (lcdNew config m r s) = -1 \<longleftrightarrow>
            \<not> valid_config config \<or> (\<forall>i<MAX_LCDS. table_seen s ! i \<noteq> None) \<or> \<not> m) \<and>
         (fst (lcdNew config m r s) \<noteq> -1 \<longrightarrow>
            (\<exists>i<MAX_LCDS. fst (lcdNew config m r s) = int i \<and>
               table_seen s ! i = None \<and> (\<forall>j<i. table_seen s ! j \<noteq> None) \<and>
               lcds (snd (lcdNew config m r s)) ! i \<noteq> None \<and>
               (\<forall>j<MAX_LCDS. j \<noteq> i \<longrightarrow>
                  lcds (snd (lcdNew config m r s)) ! j = table_seen s ! j)))"
proof (intro conjI impI)
  show "fst (lcdNew config m r s) = -1 \<longleftrightarrow>
          \<not> valid_config config \<or> (\<forall>i<MAX_LCDS. table_seen s ! i \<noteq> None) \<or> \<not> m"
    by (simp add: lcdNew_fail find_slot_none)
next
  assume ok: "fst (lcdNew config m r s) \<noteq> -1"
  then have f: "fst (lcdNew config m r s) = find_slot (table_seen s) 0 MAX_LCDS"
    by (rule lcdNew_slot)
  with ok have "find_slot (table_seen s) 0 MAX_LCDS \<noteq> -1" by simp
  from find_slot_some [OF this] obtain k where
    k: "find_slot (table_seen s) 0 MAX_LCDS = int k" "k < MAX_LCDS" "table_seen s ! k = None"
      "\<forall>j. j < k \<longrightarrow> table_seen s ! j \<noteq> None"
    by auto
  from lcdNew_table [OF ok] f k(1) obtain lcd where
    t: "lcds (snd (lcdNew config m r s)) = (table_seen s)[k := Some lcd]"
    by auto
  from k(2) length_table_seen [OF assms] have "lcds (snd (lcdNew config m r s)) ! k \<noteq> None"
    by (simp add: t)
  moreover have "\<forall>j<MAX_LCDS. j \<noteq> k \<longrightarrow>
      lcds (snd (lcdNew config m r s)) ! j = table_seen s ! j"
    by (simp add: t)
  ultimately show "\<exists>i<MAX_LCDS. fst (lcdNew config m r s) = int i \<and>
               table_seen s ! i = None \<and> (\<forall>j<i. table_seen s ! j \<noteq> None) \<and>
               lcds (snd (lcdNew config m r s)) ! i \<noteq> None \<and>
               (\<forall>j<MAX_LCDS. j \<noteq> i \<longrightarrow>
                  lcds (snd (lcdNew config m r s)) ! j = table_seen s ! j)"
    using f k by auto
qed

lemma gpio4_state_table:
  "length (lcds gpio4_state) = MAX_LCDS" "initialised gpio4_state = 1"
  "table_seen gpio4_state = Some gpio4_lcd # replicate 7 None"
  by code_simp+

theorem lcdNew_result_witness:
  "length (lcds gpio4_state) = MAX_LCDS \<and>
   fst (lcdNew i2c_config True 5 gpio4_state) = 1 \<and>
   lcds (snd (lcdNew i2c_config True 5 gpio4_state)) ! 0 = Some gpio4_lcd \<and>
   lcds (snd (lcdNew i2c_config True 5 gpio4_state)) ! 1 \<noteq> None \<and>
   fst (lcdNew i2c_config False 5 gpio4_state) = -1"
proof -
  have h: "length (lcds gpio4_state) = MAX_LCDS" by (rule gpio4_state_table)
  note t = gpio4_state_table(3)
  have v: "valid_config i2c_config" by (simp add: valid_config_def i2c_config_def)
  from lcdNew_result [OF h, of i2c_config False 5]
  have 1: "fst (lcdNew i2c_config False 5 gpio4_state) = -1" by simp
  have "\<not> (\<forall>i<MAX_LCDS. table_seen gpio4_state ! i \<noteq> None)"
    unfolding t by (auto simp: MAX_LCDS_def intro: exI [of _ 1])
  with lcdNew_result [OF h, of i2c_config True 5] v
  have "fst (lcdNew i2c_config True 5 gpio4_state) \<noteq> -1" by simp
  with lcdNew_result [OF h, of i2c_config True 5] obtain i where
    i: "i < MAX_LCDS" "fst (lcdNew i2c_config True 5 gpio4_state) = int i"
      "table_seen gpio4_state ! i = None" "\<forall>j<i. table_seen gpio4_state ! j \<noteq> None"
      "lcds (snd (lcdNew i2c_config True 5 gpio4_state)) ! i \<noteq> None"
      "\<forall>j<MAX_LCDS. j \<noteq> i \<longrightarrow>
         lcds (snd (lcdNew i2c_config True 5 gpio4_state)) ! j = table_seen gpio4_state ! j"
    by blast
  from i(3) have "i \<noteq> 0" unfolding t by (cases i) simp_all
  moreover have "\<not> 1 < i"
  proof
    assume "1 < i"
    with i(4) have "table_seen gpio4_state ! 1 \<noteq> None" by blast
    then show False unfolding t by simp
  qed
  ultimately have i1: "i = 1" by arith
  from i(6) i1 have "lcds (snd (lcdNew i2c_config True 5 gpio4_state)) ! 0
                     = table_seen gpio4_state ! 0"
    by (simp add: MAX_LCDS_def)
  with h 1 i(2,5) i1 show ?thesis
    by (simp add: t)
qed

section \<open>What every call keeps\<close>

lemma same_display_refl [simp]: "same_display l l"
  by (simp add: same_display_def)

lemma same_display_trans: "same_display a b \<Longrightarrow> same_display b c \<Longrightarrow> same_display a c"
  by (simp add: same_display_def)

lemma same_display_cursor [simp]:
  "same_display l (l\<lparr>cx := a, cy := b\<rparr>)" "same_display l (l\<lparr>cx := a\<rparr>)"
  "same_display l (l\<lparr>backlight_state := c\<rparr>)"
  by (simp_all add: same_display_def)

lemma evolves_refl [simp]: "evolves s s"
  by (simp add: evolves_def)

lemma evolves_trans:
  assumes "evolves s t" and "evolves t u"
  shows "evolves s u"
  unfolding evolves_def
proof (intro conjI allI impI)
  from assms show "length (lcds u) = length (lcds s)" by (simp add: evolves_def)
  from assms show "initialised s \<noteq> 0 \<Longrightarrow> initialised u \<noteq> 0" by (simp add: evolves_def)
  fix h lcd assume "get_lcd s h = Inr lcd"
  with assms(1) obtain l1 where 1: "get_lcd t h = Inr l1" "same_display lcd l1"
    unfolding evolves_def by blast
  with assms(2) obtain l2 where 2: "get_lcd u h = Inr l2" "same_display l1 l2"
    unfolding evolves_def by blast
  from 1 2 show "\<exists>lcd'. get_lcd u h = Inr lcd' \<and> same_display lcd lcd'"
    using same_display_trans by blast
qed

lemma evolves_lcds: "lcds t = lcds s \<Longrightarrow> initialised t = initialised s \<Longrightarrow> evolves s t"
  by (auto simp: evolves_def get_lcd_def)

lemma evolves_emit: "evolves s t \<Longrightarrow> evolves s (emit es t)"
  by (erule evolves_trans) (simp add: evolves_lcds)

lemma evolves_do_putCommand: "evolves s t \<Longrightarrow> evolves s (do_putCommand l c t)"
  by (erule evolves_trans) (simp add: evolves_lcds)

lemma evolves_do_put4Command: "evolves s t \<Longrightarrow> evolves s (do_put4Command l c t)"
  by (erule evolves_trans) (simp add: evolves_lcds)

lemma evolves_do_sendDataCmd: "evolves s t \<Longrightarrow> evolves s (do_sendDataCmd l c r t)"
  by (erule evolves_trans) (simp add: evolves_lcds)

lemma evolves_set_control: "evolves s t \<Longrightarrow> evolves s (set_control f st t)"
  by (erule evolves_trans) (simp add: evolves_lcds)

lemma evolves_set_lcd_step:
  assumes "get_lcd t fd = Inr l" and "same_display l l'"
  shows "evolves t (set_lcd fd l' t)"
  unfolding evolves_def
proof (intro conjI allI impI)
  show "length (lcds (set_lcd fd l' t)) = length (lcds t)" by (simp add: set_lcd_def)
  show "initialised t \<noteq> 0 \<Longrightarrow> initialised (set_lcd fd l' t) \<noteq> 0" by simp
  fix h lcd assume h: "get_lcd t h = Inr lcd"
  show "\<exists>lcd'. get_lcd (set_lcd fd l' t) h = Inr lcd' \<and> same_display lcd lcd'"
  proof (cases "h = fd")
    case True
    with assms h show ?thesis by (simp add: get_lcd_set_lcd_same)
  next
    case False
    from assms(1) have "0 \<le> fd" by (simp add: get_lcd_Inr)
    with False h show ?thesis by (simp add: get_lcd_set_lcd_other)
  qed
qed

lemma evolves_set_lcd:
  "evolves s t \<Longrightarrow> get_lcd t fd = Inr l \<Longrightarrow> same_display l l' \<Longrightarrow>
   evolves s (set_lcd fd l' t)"
  by (erule evolves_trans) (rule evolves_set_lcd_step)

lemmas evolves_intros =
  evolves_emit evolves_do_putCommand evolves_do_put4Command evolves_do_sendDataCmd
  evolves_set_control evolves_set_lcd

lemma lcdHome_evolves: "lcdHome s fd = Inr s' \<Longrightarrow> evolves s s'"
  by (auto simp: lcdHome_def and_then_eq_Inr intro!: evolves_intros)

lemma lcdClear_evolves: "lcdClear s fd = Inr s' \<Longrightarrow> evolves s s'"
  by (auto simp: lcdClear_def and_then_eq_Inr intro!: evolves_intros)

lemma lcdDisplay_evolves: "lcdDisplay s fd st = Inr s' \<Longrightarrow> evolves s s'"
  by (auto simp: lcdDisplay_def Let_def and_then_eq_Inr intro!: evolves_intros)

lemma lcdCursor_evolves: "lcdCursor s fd st = Inr s' \<Longrightarrow> evolves s s'"
  by (auto simp: lcdCursor_def Let_def and_then_eq_Inr intro!: evolves_intros)

lemma lcdCursorBlink_evolves: "lcdCursorBlink s fd st = Inr s' \<Longrightarrow> evolves s s'"
  by (auto simp: lcdCursorBlink_def Let_def and_then_eq_Inr intro!: evolves_intros)

lemma lcdSendCommand_evolves: "lcdSendCommand s fd c = Inr s' \<Longrightarrow> evolves s s'"
  by (auto simp: lcdSendCommand_def and_then_eq_Inr intro!: evolves_intros)

lemma lcdPosition_evolves: "lcdPosition s fd x y = Inr s' \<Longrightarrow> evolves s s'"
  by (auto simp: lcdPosition_def and_then_eq_Inr split: if_splits intro!: evolves_intros)

lemma send_rows_evolves: "evolves s t \<Longrightarrow> evolves s (send_rows l ds t)"
  by (induction ds arbitrary: t) (simp_all add: evolves_do_sendDataCmd)

lemma lcdCharDef_evolves: "lcdCharDef s fd i data = Inr s' \<Longrightarrow> evolves s s'"
  by (auto simp: lcdCharDef_def and_then_eq_Inr split: if_splits
      intro!: evolves_intros send_rows_evolves)

lemma lcdPutchar_evolves: "lcdPutchar s fd c = Inr s' \<Longrightarrow> evolves s s'"
  by (auto simp: lcdPutchar_def Let_def and_then_eq_Inr split: if_splits
      intro!: evolves_intros)

lemma lcdPuts_evolves: "lcdPuts s fd cs = Inr s' \<Longrightarrow> evolves s s'"
proof (induction cs arbitrary: s)
  case Nil
  then show ?case by simp
next
  case (Cons c cs)
  show ?case
  proof (cases "c = 0")
    case True
    with Cons.prems show ?thesis by simp
  next
    case False
    with Cons.prems obtain t where "lcdPutchar s fd c = Inr t" "lcdPuts t fd cs = Inr s'"
      by (auto simp: and_then_eq_Inr)
    then show ?thesis
      using Cons.IH lcdPutchar_evolves evolves_trans by blast
  qed
qed

lemma lcdBacklight_evolves: "lcdBacklight s fd st = Inr s' \<Longrightarrow> evolves s s'"
  by (auto simp: lcdBacklight_def Let_def and_then_eq_Inr split: if_splits
      intro!: evolves_intros)

lemma reinit_func_set_evolves: "evolves s (snd (reinit_func_set l s))"
  by (simp add: reinit_func_set_def Let_def evolves_intros)

lemma reinit_lines_evolves: "evolves s (snd fs) \<Longrightarrow> evolves s (reinit_lines l fs)"
  by (simp add: reinit_lines_def evolves_intros)

lemma lcdReinit_evolves:
  assumes "lcdReinit s fd = Inr s'"
  shows "evolves s s'"
proof -
  from assms obtain lcd s5 s6 s7 s8 lcd' where
    1: "lcdDisplay (reinit_lines lcd (reinit_func_set lcd s)) fd 1 = Inr s5"
    and 2: "lcdCursor s5 fd 0 = Inr s6"
    and 3: "lcdCursorBlink s6 fd 0 = Inr s7"
    and 4: "lcdClear s7 fd = Inr s8"
    and 5: "s' = do_putCommand lcd' (word_of_int (LCD_CDSHIFT OR LCD_CDSHIFT_RL))
               (do_putCommand lcd' (word_of_int (LCD_ENTRY OR LCD_ENTRY_ID)) s8)"
    unfolding lcdReinit_def and_then_eq_Inr by auto
  have "evolves s (reinit_lines lcd (reinit_func_set lcd s))"
    by (intro reinit_lines_evolves reinit_func_set_evolves)
  then have "evolves s s5" using lcdDisplay_evolves [OF 1] by (rule evolves_trans)
  then have "evolves s s6" using lcdCursor_evolves [OF 2] by (rule evolves_trans)
  then have "evolves s s7" using lcdCursorBlink_evolves [OF 3] by (rule evolves_trans)
  then have "evolves s s8" using lcdClear_evolves [OF 4] by (rule evolves_trans)
  then show ?thesis unfolding 5 by (intro evolves_intros)
qed


lemma evolves_set_lcd_free:
  assumes "lcds t ! nat k = None" and "0 \<le> k"
  shows "evolves t (set_lcd k l t)"
  unfolding evolves_def
proof (intro conjI allI impI)
  show "length (lcds (set_lcd k l t)) = length (lcds t)" by (simp add: set_lcd_def)
  show "initialised t \<noteq> 0 \<Longrightarrow> initialised (set_lcd k l t) \<noteq> 0" by simp
  fix h lcd assume h: "get_lcd t h = Inr lcd"
  with assms(1) have "h \<noteq> k" by (auto simp: get_lcd_Inr)
  with h assms(2) show "\<exists>lcd'. get_lcd (set_lcd k l t) h = Inr lcd' \<and> same_display lcd lcd'"
    by (simp add: get_lcd_set_lcd_other)
qed

lemma get_lcd_set_lcd_at:
  "0 \<le> fd \<Longrightarrow> fd < int MAX_LCDS \<Longrightarrow> nat fd < length (lcds s) \<Longrightarrow>
   get_lcd (set_lcd fd l s) fd = Inr l"
  by (simp add: get_lcd_def set_lcd_def)

lemma lcds_set_lcd [simp]: "lcds (set_lcd fd l s) = (lcds s)[nat fd := Some l]"
  by (simp add: set_lcd_def)

lemma evolves_new_entry:
  assumes "lcds t = (lcds s)[k := Some l]" and "lcds s ! k = None"
    and "initialised s \<noteq> 0 \<longrightarrow> initialised t \<noteq> 0"
  shows "evolves s t"
  unfolding evolves_def
proof (intro conjI allI impI)
  from assms(1) show "length (lcds t) = length (lcds s)" by simp
  from assms(3) show "initialised s \<noteq> 0 \<Longrightarrow> initialised t \<noteq> 0" by simp
  fix h lcd assume h: "get_lcd s h = Inr lcd"
  with assms(2) have "nat h \<noteq> k" by (auto simp: get_lcd_Inr)
  with h assms(1) have "get_lcd t h = Inr lcd" by (simp add: get_lcd_Inr)
  then show "\<exists>lcd'. get_lcd t h = Inr lcd' \<and> same_display lcd lcd'" by auto
qed

text \<open>The handle that \<open>lcdNew\<close> fills in.\<close>

lemma lcdNew_success:
  assumes "lcdNew config m r s = (h, s1)" and "h \<noteq> -1"
  shows "\<exists>lcd k. h = int k \<and> k < MAX_LCDS \<and> table_seen s ! k = None \<and>
           lcds s1 = (table_seen s)[k := Some lcd] \<and> initialised s1 \<noteq> 0 \<and>
           valid_config config \<and>
           bits lcd = lcd_config.bits config \<and> rows lcd = lcd_config.rows config \<and>
           cols lcd = lcd_config.cols config \<and> cx lcd = 0 \<and> cy lcd = 0"
proof -
  from assms have ok: "fst (lcdNew config m r s) \<noteq> -1" by simp
  with lcdNew_fail [of config m r s] have v: "valid_config config" and m: "m"
    and f: "find_slot (table_seen s) 0 MAX_LCDS \<noteq> -1"
    by auto
  from find_slot_some [OF f] obtain k where
    k: "find_slot (table_seen s) 0 MAX_LCDS = int k" "k < MAX_LCDS" "table_seen s ! k = None"
    by auto
  from lcdNew_slot [OF ok] assms(1) k(1) have hk: "h = int k" by simp
  define s0 where "s0 = (if initialised s = 0
                then s\<lparr>initialised := 1, lcds := replicate MAX_LCDS None\<rparr> else s)"
  have s0: "lcds s0 = table_seen s" "initialised s0 \<noteq> 0"
    by (auto simp: s0_def table_seen_def)
  with k(1) have fs: "find_slot (lcds s0) 0 MAX_LCDS = int k" by simp
  from v have v': "lcd_config.bits config = 4 \<or> lcd_config.bits config = 8"
    "\<not> lcd_config.rows config < 0" "\<not> 20 < lcd_config.rows config"
    "\<not> lcd_config.cols config < 0" "\<not> 20 < lcd_config.cols config"
    by (auto simp: valid_config_def)
  define lcd where "lcd =
     \<lparr>bits = lcd_config.bits config, rows = lcd_config.rows config,
      cols = lcd_config.cols config, rsPin = rs config, strbPin = strb config,
      dataPins = [d0 config, d1 config, d2 config, d3 config,
                  d4 config, d5 config, d6 config, d7 config],
      cx = 0, cy = 0, i2c_fd = (if i2c_addr config \<noteq> 0 then r else 0),
      backlight_bit = backlight config,
      backlight_state = lcd_config.backlight_state config\<rparr>"
  from assms(1) m fs v' have "snd (lcdNew config m r s) = s1" by simp
  then have s1: "lcds s1 = (lcds s0)[k := Some lcd]" "initialised s1 = initialised s0"
    using m fs v'
    unfolding lcdNew_def s0_def [symmetric] Let_def lcd_def [symmetric]
    by (auto split: if_splits)
  have "bits lcd = lcd_config.bits config \<and> rows lcd = lcd_config.rows config \<and>
        cols lcd = lcd_config.cols config \<and> cx lcd = 0 \<and> cy lcd = 0"
    by (simp add: lcd_def)
  with hk k v s0 s1 show ?thesis by auto
qed

lemma lcdNew_evolves:
  assumes "initialised s \<noteq> 0"
  shows "evolves s (snd (lcdNew config m r s))"
proof (cases "fst (lcdNew config m r s) = -1")
  case True
  with assms have "snd (lcdNew config m r s) = s"
    by (auto simp: lcdNew_def Let_def split: if_splits)
  then show ?thesis by simp
next
  case False
  with lcdNew_success [of config m r s "fst (lcdNew config m r s)" "snd (lcdNew config m r s)"]
  obtain lcd k where
    "table_seen s ! k = None" "lcds (snd (lcdNew config m r s)) = (table_seen s)[k := Some lcd]"
    "initialised (snd (lcdNew config m r s)) \<noteq> 0"
    by auto
  with assms show ?thesis
    by (intro evolves_new_entry [of _ _ k lcd]) (simp_all add: table_seen_def)
qed

lemma lcdInit_evolves:
  assumes "lcdInit config m r s = Inr p" and "initialised s \<noteq> 0"
  shows "evolves s (snd p)"
proof (cases "fst (lcdNew config m r s) < 0")
  case True
  with assms(1) have "snd p = snd (lcdNew config m r s)"
    by (auto simp: lcdInit_def Let_def)
  with assms(2) show ?thesis by (simp add: lcdNew_evolves)
next
  case False
  with assms(1) have "lcdReinit (snd (lcdNew config m r s)) (fst (lcdNew config m r s))
                      = Inr (snd p)"
    by (auto simp: lcdInit_def Let_def and_then_eq_Inr)
  then have "evolves (snd (lcdNew config m r s)) (snd p)" by (rule lcdReinit_evolves)
  with lcdNew_evolves [OF assms(2)] show ?thesis by (rule evolves_trans)
qed

lemma exec_evolves:
  assumes "exec c s = Inr s'" and "initialised s \<noteq> 0"
  shows "evolves s s'"
proof (cases c)
  case (New config m r)
  with assms show ?thesis using lcdNew_evolves by auto
next
  case (Init config m r)
  with assms show ?thesis using lcdInit_evolves by (auto simp: and_then_eq_Inr)
next
  case (Printf fd str)
  with assms show ?thesis using lcdPuts_evolves by (auto simp: lcdPrintf_def)
qed (use assms in \<open>auto intro: lcdHome_evolves lcdClear_evolves lcdDisplay_evolves
      lcdCursor_evolves lcdCursorBlink_evolves lcdSendCommand_evolves lcdPosition_evolves
      lcdCharDef_evolves lcdPutchar_evolves lcdPuts_evolves lcdReinit_evolves
      lcdBacklight_evolves\<close>)

lemma exec_all_evolves:
  "exec_all cs s = Inr s' \<Longrightarrow> initialised s \<noteq> 0 \<Longrightarrow> evolves s s'"
proof (induction cs arbitrary: s)
  case Nil
  then show ?case by simp
next
  case (Cons c cs)
  from Cons.prems(1) obtain t where t: "exec c s = Inr t" "exec_all cs t = Inr s'"
    by (auto simp: and_then_eq_Inr)
  from t(1) Cons.prems(2) have e: "evolves s t" by (rule exec_evolves)
  with Cons.prems(2) have "initialised t \<noteq> 0" by (simp add: evolves_def)
  with t(2) have "evolves t s'" by (rule Cons.IH)
  with e show ?case by (rule evolves_trans)
qed


lemma demo_run: "exec_all demo_calls gpio4_state = Inr demo_state"
  by code_simp

lemma gpio4_new: "lcdNew gpio4_config True 0 boot = (0, gpio4_state)"
  by code_simp

lemma boot_length: "length (lcds boot) = MAX_LCDS"
  by (simp add: boot_def)

text \<open>
  C4, amended. A handle that \<open>lcdNew\<close> returns has a bus width of 4 or 8, between 0 and 20
  rows and between 0 and 20 columns: the bound on the rows is the 20 of the range check,
  not 4. After every sequence of calls of the public functions that return, the handle is
  still open and its bus width, rows and columns are what the factory stored.
\<close>

theorem lcdNew_geometry_kept:
  assumes "lcdNew config m r s = (h, s1)" and "0 \<le> h" and "length (lcds s) = MAX_LCDS"
    and "exec_all cs s1 = Inr s2"
  shows "\<exists>lcd1 lcd2. get_lcd s1 h = Inr lcd1 \<and> checked_geometry lcd1 \<and>
           get_lcd s2 h = Inr lcd2 \<and> checked_geometry lcd2 \<and>
           bits lcd2 = bits lcd1 \<and> rows lcd2 = rows lcd1 \<and> cols lcd2 = cols lcd1"
proof -
  from assms(2) have "h \<noteq> -1" by simp
  from lcdNew_success [OF assms(1) this] obtain lcd k where
    k: "h = int k" "k < MAX_LCDS" "lcds s1 = (table_seen s)[k := Some lcd]"
      "initialised s1 \<noteq> 0" "valid_config config"
      "bits lcd = lcd_config.bits config" "rows lcd = lcd_config.rows config"
      "cols lcd = lcd_config.cols config"
    by blast
  from k(1-3) length_table_seen [OF assms(3)] have g1: "get_lcd s1 h = Inr lcd"
    by (simp add: get_lcd_Inr)
  from k(5-8) have c1: "checked_geometry lcd"
    by (simp add: checked_geometry_def valid_config_def)
  from assms(4) k(4) have "evolves s1 s2" by (rule exec_all_evolves)
  with g1 obtain lcd2 where 2: "get_lcd s2 h = Inr lcd2" "same_display lcd lcd2"
    unfolding evolves_def by blast
  from 2(2) c1 have "checked_geometry lcd2 \<and>
      bits lcd2 = bits lcd \<and> rows lcd2 = rows lcd \<and> cols lcd2 = cols lcd"
    by (simp add: same_display_def checked_geometry_def)
  with g1 c1 2(1) show ?thesis by blast
qed

theorem lcdNew_geometry_kept_witness:
  "lcdNew gpio4_config True 0 boot = (0, gpio4_state) \<and> (0::int) \<le> 0 \<and>
   length (lcds boot) = MAX_LCDS \<and> exec_all demo_calls gpio4_state = Inr demo_state \<and>
   (\<exists>lcd1 lcd2. get_lcd gpio4_state 0 = Inr lcd1 \<and> checked_geometry lcd1 \<and>
      get_lcd demo_state 0 = Inr lcd2 \<and> checked_geometry lcd2 \<and>
      bits lcd2 = bits lcd1 \<and> rows lcd2 = rows lcd1 \<and> cols lcd2 = cols lcd1)"
proof -
  have z: "(0::int) \<le> 0" by simp
  from lcdNew_geometry_kept [OF gpio4_new z boot_length demo_run] gpio4_new boot_length demo_run
  show ?thesis by simp
qed

text \<open>The factory accepts five rows.\<close>

theorem lcdNew_five_rows_counterexample:
  "fst (lcdNew tall_config True 0 boot) = 0 \<and>
   get_lcd (snd (lcdNew tall_config True 0 boot)) 0 = Inr tall_lcd \<and> rows tall_lcd = 5"
  by code_simp

section \<open>The backlight bit on the I2C transport\<close>

lemma backlight_kept_append [simp]:
  "backlight_kept lcd (es @ es') \<longleftrightarrow> backlight_kept lcd es \<and> backlight_kept lcd es'"
  by (induction lcd es rule: backlight_kept.induct) simp_all

lemma packed_backlight:
  "packed lcd e r nib b \<Longrightarrow> bit b (nat (backlight_bit lcd)) = (backlight_state lcd \<noteq> 0)"
  by (simp add: packed_def)

lemma packed_mask: "packed lcd e r (nib AND 0xf) b \<longleftrightarrow> packed lcd e r nib b"
proof -
  have "bit (nib AND 0xf) k = bit nib k" if "k < 4" for k
  proof -
    have "bit (nib AND mask 4) k = bit nib k"
      using that by (simp add: bit_and_iff bit_mask_iff)
    moreover have "(mask 4 :: byte) = 0xf" by (simp add: mask_eq_exp_minus_1)
    ultimately show ?thesis by simp
  qed
  then show ?thesis by (simp add: packed_def)
qed

lemma sendDataCmd_i2c:
  assumes "i2c_fd lcd \<noteq> 0" and w: "expander_wiring lcd" and r: "(r::byte) \<le> 1"
  shows "\<exists>b1 b2 b3 b4.
           sendDataCmd lcd d r =
             [I2CWrite (i2c_fd lcd) b1, DelayMicroseconds 50,
              I2CWrite (i2c_fd lcd) b2, DelayMicroseconds 50,
              I2CWrite (i2c_fd lcd) b3, DelayMicroseconds 50,
              I2CWrite (i2c_fd lcd) b4, DelayMicroseconds 50] \<and>
           packed lcd True (r \<noteq> 0) (drop_bit 4 d) b1 \<and>
           packed lcd False (r \<noteq> 0) (drop_bit 4 d) b2 \<and>
           packed lcd True (r \<noteq> 0) d b3 \<and> packed lcd False (r \<noteq> 0) d b4"
  using assms(1)
    packed_high [OF w r, of "drop_bit 4 d AND 0xf"] packed_low [OF w r, of "drop_bit 4 d AND 0xf"]
    packed_high [OF w r, of "d AND 0xf"] packed_low [OF w r, of "d AND 0xf"]
  by (simp add: sendDataCmd_def i2c_send_def packed_mask)

lemma sendDataCmd_kept:
  assumes "i2c_fd lcd \<noteq> 0" and "expander_wiring lcd" and "(r::byte) \<le> 1"
  shows "backlight_kept lcd (sendDataCmd lcd d r)"
proof -
  from sendDataCmd_i2c [OF assms, of d] obtain b1 b2 b3 b4 where
    "sendDataCmd lcd d r =
             [I2CWrite (i2c_fd lcd) b1, DelayMicroseconds 50,
              I2CWrite (i2c_fd lcd) b2, DelayMicroseconds 50,
              I2CWrite (i2c_fd lcd) b3, DelayMicroseconds 50,
              I2CWrite (i2c_fd lcd) b4, DelayMicroseconds 50]"
    "packed lcd True (r \<noteq> 0) (drop_bit 4 d) b1" "packed lcd False (r \<noteq> 0) (drop_bit 4 d) b2"
    "packed lcd True (r \<noteq> 0) d b3" "packed lcd False (r \<noteq> 0) d b4"
    by blast
  then show ?thesis by (simp add: packed_backlight)
qed

lemma putCommand_kept:
  "i2c_fd lcd \<noteq> 0 \<Longrightarrow> expander_wiring lcd \<Longrightarrow> backlight_kept lcd (putCommand lcd c)"
  by (simp add: putCommand_def sendDataCmd_kept)

lemma put4Command_kept:
  assumes "i2c_fd lcd \<noteq> 0" and "expander_wiring lcd"
  shows "backlight_kept lcd (put4Command lcd c)"
proof -
  from put4Command_i2c [OF assms, of c] obtain h l where
    "put4Command lcd c = [I2CWrite (i2c_fd lcd) h, DelayMicroseconds 50,
            I2CWrite (i2c_fd lcd) l, DelayMicroseconds 50]"
    "packed lcd True False c h" "packed lcd False False c l"
    by blast
  then show ?thesis by (simp add: packed_backlight)
qed

text \<open>Handle values of the same display transmit alike.\<close>

lemma sendDataCmd_like:
  assumes "like lcd l"
  shows "sendDataCmd l d r = sendDataCmd lcd d r"
proof -
  from assms have "dataPins l = dataPins lcd" by (simp add: like_def same_display_def)
  from write_pins_wiring [OF this] marshal_loop_wiring [OF this] assms show ?thesis
    by (simp add: sendDataCmd_def i2c_send_def strobe_def marshal4Bits_def LCD_BACKLIGHT_def
        like_def same_display_def)
qed

lemma putCommand_like: "like lcd l \<Longrightarrow> putCommand l c = putCommand lcd c"
  by (simp add: putCommand_def sendDataCmd_like)

lemma put4Command_like:
  assumes "like lcd l"
  shows "put4Command l c = put4Command lcd c"
proof -
  from assms have "dataPins l = dataPins lcd" by (simp add: like_def same_display_def)
  from write_pins_wiring [OF this] marshal_loop_wiring [OF this] assms show ?thesis
    by (simp add: put4Command_def i2c_send_def strobe_def marshal4Bits_def LCD_BACKLIGHT_def
        like_def same_display_def)
qed

lemma like_refl [simp]: "like l l"
  by (simp add: like_def)

lemma like_cursor [simp]: "like l (l\<lparr>cx := a, cy := b\<rparr>)" "like l (l\<lparr>cx := a\<rparr>)"
  by (simp_all add: like_def)

lemma like_trans: "like a b \<Longrightarrow> like b c \<Longrightarrow> like a c"
  by (auto simp: like_def intro: same_display_trans)

lemma like_kept: "like a b \<Longrightarrow> backlight_kept b es = backlight_kept a es"
  by (induction a es rule: backlight_kept.induct) (simp_all add: like_def same_display_def)


lemma like_i2c: "like lcd l \<Longrightarrow> i2c_fd l = i2c_fd lcd"
  by (simp add: like_def same_display_def)

lemma like_wiring: "like lcd l \<Longrightarrow> expander_wiring l = expander_wiring lcd"
  by (simp add: like_def same_display_def expander_wiring_def expander_lines_def)

lemma i2c_step_refl: "get_lcd s fd = Inr l \<Longrightarrow> like lcd l \<Longrightarrow> i2c_step fd lcd s s"
  by (auto simp: i2c_step_def intro: exI [of _ "[]"])

lemma i2c_step_add:
  assumes "i2c_step fd lcd s t" and "get_lcd u fd = get_lcd t fd"
    and "trace u = trace t @ es" and "backlight_kept lcd es"
  shows "i2c_step fd lcd s u"
proof -
  from assms(1) obtain l es0 where
    "get_lcd t fd = Inr l" "like lcd l" "trace t = trace s @ es0" "backlight_kept lcd es0"
    unfolding i2c_step_def by blast
  with assms(2-4) have "get_lcd u fd = Inr l \<and> like lcd l \<and>
      trace u = trace s @ (es0 @ es) \<and> backlight_kept lcd (es0 @ es)"
    by simp
  then show ?thesis unfolding i2c_step_def by blast
qed

lemma i2c_step_emit:
  "i2c_step fd lcd s t \<Longrightarrow> backlight_kept lcd es \<Longrightarrow> i2c_step fd lcd s (emit es t)"
  by (erule i2c_step_add [where es = es]) simp_all

lemma i2c_step_set_control:
  "i2c_step fd lcd s t \<Longrightarrow> i2c_step fd lcd s (set_control f st t)"
  by (erule i2c_step_add [where es = "[]"]) simp_all

lemma i2c_step_do_sendDataCmd:
  assumes "i2c_step fd lcd s t" and "like lcd l" and "i2c_fd lcd \<noteq> 0"
    and "expander_wiring lcd" and "r \<le> 1"
  shows "i2c_step fd lcd s (do_sendDataCmd l d r t)"
  using assms(1)
  by (rule i2c_step_add [where es = "sendDataCmd lcd d r"])
     (simp_all add: sendDataCmd_like [OF assms(2)] sendDataCmd_kept assms)

lemma i2c_step_do_putCommand:
  assumes "i2c_step fd lcd s t" and "like lcd l" and "i2c_fd lcd \<noteq> 0"
    and "expander_wiring lcd"
  shows "i2c_step fd lcd s (do_putCommand l c t)"
  using assms(1)
  by (rule i2c_step_add [where es = "putCommand lcd c"])
     (simp_all add: putCommand_like [OF assms(2)] putCommand_kept assms)

lemma i2c_step_do_put4Command:
  assumes "i2c_step fd lcd s t" and "like lcd l" and "i2c_fd lcd \<noteq> 0"
    and "expander_wiring lcd"
  shows "i2c_step fd lcd s (do_put4Command l c t)"
  using assms(1)
  by (rule i2c_step_add [where es = "put4Command lcd c"])
     (simp_all add: put4Command_like [OF assms(2)] put4Command_kept assms)

lemma i2c_step_set_lcd:
  assumes "i2c_step fd lcd s t" and "like lcd l'"
  shows "i2c_step fd lcd s (set_lcd fd l' t)"
proof -
  from assms(1) obtain l es0 where
    t: "get_lcd t fd = Inr l" "trace t = trace s @ es0" "backlight_kept lcd es0"
    unfolding i2c_step_def by blast
  from t(1) have "get_lcd (set_lcd fd l' t) fd = Inr l'" by (rule get_lcd_set_lcd_same)
  with t(2,3) assms(2) show ?thesis unfolding i2c_step_def by auto
qed

lemma i2c_step_trans:
  assumes "i2c_step fd lcd s t" and "i2c_step fd lcd t u"
  shows "i2c_step fd lcd s u"
proof -
  from assms(1) obtain es0 where 1: "trace t = trace s @ es0" "backlight_kept lcd es0"
    unfolding i2c_step_def by blast
  from assms(2) obtain l es1 where
    2: "get_lcd u fd = Inr l" "like lcd l" "trace u = trace t @ es1" "backlight_kept lcd es1"
    unfolding i2c_step_def by blast
  from 1 2 have "get_lcd u fd = Inr l \<and> like lcd l \<and>
      trace u = trace s @ (es0 @ es1) \<and> backlight_kept lcd (es0 @ es1)"
    by simp
  then show ?thesis unfolding i2c_step_def by blast
qed

lemma i2c_step_like:
  assumes "like lcd l" and "i2c_step fd l t u"
  shows "i2c_step fd lcd t u"
  using assms unfolding i2c_step_def
  by (metis like_kept like_trans)

lemmas i2c_step_intros =
  i2c_step_emit i2c_step_set_control i2c_step_do_sendDataCmd i2c_step_do_putCommand
  i2c_step_do_put4Command i2c_step_set_lcd

lemma lcdHome_i2c:
  assumes "get_lcd s fd = Inr lcd" and "i2c_fd lcd \<noteq> 0" and "expander_wiring lcd"
    and "lcdHome s fd = Inr s'"
  shows "i2c_step fd lcd s s'"
  using assms i2c_step_refl [OF assms(1), of lcd]
  by (auto simp: lcdHome_def intro!: i2c_step_intros)

lemma lcdClear_i2c:
  assumes "get_lcd s fd = Inr lcd" and "i2c_fd lcd \<noteq> 0" and "expander_wiring lcd"
    and "lcdClear s fd = Inr s'"
  shows "i2c_step fd lcd s s'"
  using assms i2c_step_refl [OF assms(1), of lcd]
  by (auto simp: lcdClear_def intro!: i2c_step_intros)

lemma lcdDisplay_i2c:
  assumes "get_lcd s fd = Inr lcd" and "i2c_fd lcd \<noteq> 0" and "expander_wiring lcd"
    and "lcdDisplay s fd st = Inr s'"
  shows "i2c_step fd lcd s s'"
  using assms i2c_step_refl [OF assms(1), of lcd]
  by (auto simp: lcdDisplay_def Let_def intro!: i2c_step_intros)

lemma lcdCursor_i2c:
  assumes "get_lcd s fd = Inr lcd" and "i2c_fd lcd \<noteq> 0" and "expander_wiring lcd"
    and "lcdCursor s fd st = Inr s'"
  shows "i2c_step fd lcd s s'"
  using assms i2c_step_refl [OF assms(1), of lcd]
  by (auto simp: lcdCursor_def Let_def intro!: i2c_step_intros)

lemma lcdCursorBlink_i2c:
  assumes "get_lcd s fd = Inr lcd" and "i2c_fd lcd \<noteq> 0" and "expander_wiring lcd"
    and "lcdCursorBlink s fd st = Inr s'"
  shows "i2c_step fd lcd s s'"
  using assms i2c_step_refl [OF assms(1), of lcd]
  by (auto simp: lcdCursorBlink_def Let_def intro!: i2c_step_intros)

lemma lcdSendCommand_i2c:
  assumes "get_lcd s fd = Inr lcd" and "i2c_fd lcd \<noteq> 0" and "expander_wiring lcd"
    and "lcdSendCommand s fd c = Inr s'"
  shows "i2c_step fd lcd s s'"
  using assms i2c_step_refl [OF assms(1), of lcd]
  by (auto simp: lcdSendCommand_def intro!: i2c_step_intros)

lemma lcdPosition_i2c:
  assumes "get_lcd s fd = Inr lcd" and "i2c_fd lcd \<noteq> 0" and "expander_wiring lcd"
    and "lcdPosition s fd x y = Inr s'"
  shows "i2c_step fd lcd s s'"
  using assms i2c_step_refl [OF assms(1), of lcd]
  by (auto simp: lcdPosition_def and_then_eq_Inr split: if_splits intro!: i2c_step_intros)

lemma send_rows_i2c:
  assumes "like lcd l" and "i2c_fd lcd \<noteq> 0" and "expander_wiring lcd"
  shows "i2c_step fd lcd s t \<Longrightarrow> i2c_step fd lcd s (send_rows l ds t)"
  by (induction ds arbitrary: t) (simp_all add: i2c_step_do_sendDataCmd assms)

lemma lcdCharDef_i2c:
  assumes "get_lcd s fd = Inr lcd" and "i2c_fd lcd \<noteq> 0" and "expander_wiring lcd"
    and "lcdCharDef s fd i data = Inr s'"
  shows "i2c_step fd lcd s s'"
  using assms i2c_step_refl [OF assms(1), of lcd]
  by (auto simp: lcdCharDef_def split: if_splits intro!: send_rows_i2c i2c_step_intros)

lemma lcdPutchar_i2c:
  assumes "get_lcd s fd = Inr lcd" and "i2c_fd lcd \<noteq> 0" and "expander_wiring lcd"
    and "lcdPutchar s fd c = Inr s'"
  shows "i2c_step fd lcd s s'"
  using assms i2c_step_refl [OF assms(1), of lcd]
  by (auto simp: lcdPutchar_def Let_def and_then_eq_Inr split: if_splits
      intro!: i2c_step_intros)


lemma lcdPuts_i2c:
  "get_lcd s fd = Inr lcd \<Longrightarrow> i2c_fd lcd \<noteq> 0 \<Longrightarrow> expander_wiring lcd \<Longrightarrow>
   lcdPuts s fd cs = Inr s' \<Longrightarrow> i2c_step fd lcd s s'"
proof (induction cs arbitrary: s lcd)
  case Nil
  then show ?case by (simp add: i2c_step_refl)
next
  case (Cons c cs)
  show ?case
  proof (cases "c = 0")
    case True
    with Cons.prems show ?thesis by (simp add: i2c_step_refl)
  next
    case False
    with Cons.prems obtain t where t: "lcdPutchar s fd c = Inr t" "lcdPuts t fd cs = Inr s'"
      by (auto simp: and_then_eq_Inr)
    from Cons.prems(1-3) t(1) have 1: "i2c_step fd lcd s t" by (rule lcdPutchar_i2c)
    then obtain l where l: "get_lcd t fd = Inr l" "like lcd l"
      unfolding i2c_step_def by blast
    from l(2) Cons.prems(2,3) have "i2c_fd l \<noteq> 0" "expander_wiring l"
      by (simp_all add: like_i2c like_wiring)
    from Cons.IH [OF l(1) this t(2)] have "i2c_step fd l t s'" .
    with l(2) have "i2c_step fd lcd t s'" by (rule i2c_step_like)
    with 1 show ?thesis by (rule i2c_step_trans)
  qed
qed

text \<open>One more call on a handle that a step has kept.\<close>

lemma i2c_step_then:
  assumes "i2c_step fd lcd s t" and "i2c_fd lcd \<noteq> 0" and "expander_wiring lcd"
    and "\<And>l. get_lcd t fd = Inr l \<Longrightarrow> i2c_fd l \<noteq> 0 \<Longrightarrow> expander_wiring l \<Longrightarrow>
           i2c_step fd l t u"
  shows "i2c_step fd lcd s u"
proof -
  from assms(1) obtain l where l: "get_lcd t fd = Inr l" "like lcd l"
    unfolding i2c_step_def by blast
  from l(2) assms(2,3) have "i2c_fd l \<noteq> 0" "expander_wiring l"
    by (simp_all add: like_i2c like_wiring)
  from assms(4) [OF l(1) this] l(2) have "i2c_step fd lcd t u" by (rule i2c_step_like [rotated])
  with assms(1) show ?thesis by (rule i2c_step_trans)
qed

lemma reinit_head_i2c:
  assumes "get_lcd s fd = Inr lcd" and "i2c_fd lcd \<noteq> 0" and "expander_wiring lcd"
  shows "i2c_step fd lcd s (reinit_lines lcd (reinit_func_set lcd s))"
  using assms i2c_step_refl [OF assms(1), of lcd]
  by (auto simp: reinit_lines_def reinit_func_set_def Let_def intro!: i2c_step_intros)

lemma lcdReinit_i2c:
  assumes g: "get_lcd s fd = Inr lcd" and i: "i2c_fd lcd \<noteq> 0" and w: "expander_wiring lcd"
    and r: "lcdReinit s fd = Inr s'"
  shows "i2c_step fd lcd s s'"
proof -
  from r g obtain s5 s6 s7 s8 lcd' where
    1: "lcdDisplay (reinit_lines lcd (reinit_func_set lcd s)) fd 1 = Inr s5"
    and 2: "lcdCursor s5 fd 0 = Inr s6"
    and 3: "lcdCursorBlink s6 fd 0 = Inr s7"
    and 4: "lcdClear s7 fd = Inr s8"
    and 5: "get_lcd s8 fd = Inr lcd'"
    and 6: "s' = do_putCommand lcd' (word_of_int (LCD_CDSHIFT OR LCD_CDSHIFT_RL))
               (do_putCommand lcd' (word_of_int (LCD_ENTRY OR LCD_ENTRY_ID)) s8)"
    unfolding lcdReinit_def and_then_eq_Inr by auto
  have "i2c_step fd lcd s (reinit_lines lcd (reinit_func_set lcd s))"
    using g i w by (rule reinit_head_i2c)
  then have "i2c_step fd lcd s s5"
    using i w by (rule i2c_step_then) (rule lcdDisplay_i2c [OF _ _ _ 1])
  then have "i2c_step fd lcd s s6"
    using i w by (rule i2c_step_then) (rule lcdCursor_i2c [OF _ _ _ 2])
  then have "i2c_step fd lcd s s7"
    using i w by (rule i2c_step_then) (rule lcdCursorBlink_i2c [OF _ _ _ 3])
  then have 8: "i2c_step fd lcd s s8"
    using i w by (rule i2c_step_then) (rule lcdClear_i2c [OF _ _ _ 4])
  with 5 have "like lcd lcd'" unfolding i2c_step_def by auto
  with 8 i w show ?thesis unfolding 6 by (intro i2c_step_intros)
qed

lemma lcdBacklight_i2c:
  assumes "get_lcd s fd = Inr lcd" and "lcdBacklight s fd st = Inr s'"
  shows "get_lcd s' fd = Inr (lcd\<lparr>backlight_state := st\<rparr>) \<and>
         backlight_kept (lcd\<lparr>backlight_state := st\<rparr>) (added (trace s) (trace s'))"
proof -
  have "bit (LCD_BACKLIGHT (lcd\<lparr>backlight_state := st\<rparr>)) (nat (backlight_bit lcd)) = (st \<noteq> 0)"
    by (simp add: LCD_BACKLIGHT_def bit_push_bit_iff bit_1_iff bit_exp_iff)
  with assms show ?thesis
    by (auto simp: lcdBacklight_def Let_def get_lcd_set_lcd_same added_def split: if_splits)
qed

lemma i2c_step_kept:
  assumes "i2c_step fd lcd s s'"
  shows "\<exists>lcd'. get_lcd s' fd = Inr lcd' \<and> backlight_kept lcd' (added (trace s) (trace s'))"
proof -
  from assms obtain l es where
    "get_lcd s' fd = Inr l" "like lcd l" "trace s' = trace s @ es" "backlight_kept lcd es"
    unfolding i2c_step_def by blast
  then show ?thesis by (auto simp: like_kept)
qed

lemma exec_backlight_kept:
  assumes g: "get_lcd s fd = Inr lcd" and i: "i2c_fd lcd \<noteq> 0" and w: "expander_wiring lcd"
    and c: "call_handle c = Some fd" and e: "exec c s = Inr s'"
  shows "\<exists>lcd'. get_lcd s' fd = Inr lcd' \<and> backlight_kept lcd' (added (trace s) (trace s'))"
proof (cases c)
  case (Backlight fd' st)
  with c e lcdBacklight_i2c [OF g, of st s'] show ?thesis by auto
next
  case (New config m r)
  with c show ?thesis by simp
next
  case (Init config m r)
  with c show ?thesis by simp
next
  case (Printf fd' str)
  with c e have "lcdPuts s fd (take 1022 str) = Inr s'" by (simp add: lcdPrintf_def)
  from lcdPuts_i2c [OF g i w this] show ?thesis by (rule i2c_step_kept)
qed (use c e in \<open>auto intro!: i2c_step_kept
      lcdHome_i2c [OF g i w] lcdClear_i2c [OF g i w] lcdDisplay_i2c [OF g i w]
      lcdCursor_i2c [OF g i w] lcdCursorBlink_i2c [OF g i w] lcdSendCommand_i2c [OF g i w]
      lcdPosition_i2c [OF g i w] lcdCharDef_i2c [OF g i w] lcdPutchar_i2c [OF g i w]
      lcdPuts_i2c [OF g i w] lcdReinit_i2c [OF g i w]\<close>)


lemma expander_wiring_backlight_state [simp]:
  "expander_wiring (l\<lparr>backlight_state := st\<rparr>) = expander_wiring l"
  by (simp add: expander_wiring_def expander_lines_def)

lemma dark_putchar_kept:
  assumes g: "get_lcd s fd = Inr lcd" and i: "i2c_fd lcd \<noteq> 0" and w: "expander_wiring lcd"
    and b: "lcdBacklight s fd 0 = Inr s1" and p: "lcdPutchar s1 fd ch = Inr s2"
  shows "\<exists>lcd2. get_lcd s2 fd = Inr lcd2 \<and> backlight_state lcd2 = 0 \<and>
           backlight_kept lcd2 (added (trace s1) (trace s2))"
proof -
  let ?l = "lcd\<lparr>backlight_state := 0\<rparr>"
  from lcdBacklight_i2c [OF g b] have g1: "get_lcd s1 fd = Inr ?l" by simp
  from i w have "i2c_fd ?l \<noteq> 0" "expander_wiring ?l" by simp_all
  from lcdPutchar_i2c [OF g1 this p] obtain l2 es where
    "get_lcd s2 fd = Inr l2" "like ?l l2" "trace s2 = trace s1 @ es" "backlight_kept ?l es"
    unfolding i2c_step_def by blast
  then show ?thesis by (auto simp: like_kept) (simp add: like_def)
qed

text \<open>
  C7, amended. On a handle of the I2C transport whose strobe, register select, backlight
  and four data lines are seven different bits 0..7 of the expander byte: every byte that
  a call on the handle writes to the expander has the backlight bit equal to the stored
  backlight state, the state that the call leaves (\<open>lcdBacklight\<close> writes the byte of the
  new state). After \<open>lcdBacklight\<close> with 0 the bytes of a following \<open>lcdPutchar\<close> have the
  bit clear. A transmission of \<open>sendDataCmd\<close> is four bytes, the high nibble then the low
  one, each with the strobe high then low, and in each byte every line carries its own
  signal: strobe, register select, backlight state and the four data bits.
\<close>

theorem expander_backlight_bit:
  assumes "get_lcd s fd = Inr lcd" and "i2c_fd lcd \<noteq> 0" and "expander_wiring lcd"
  shows "(call_handle c = Some fd \<and> exec c s = Inr s' \<longrightarrow>
            (\<exists>lcd'. get_lcd s' fd = Inr lcd' \<and>
               backlight_kept lcd' (added (trace s) (trace s')))) \<and>
         (lcdBacklight s fd 0 = Inr dark \<and> lcdPutchar dark fd ch = Inr lit \<longrightarrow>
            (\<exists>lcd2. get_lcd lit fd = Inr lcd2 \<and> backlight_state lcd2 = 0 \<and>
               backlight_kept lcd2 (added (trace dark) (trace lit)))) \<and>
         (r \<le> 1 \<longrightarrow>
            (\<exists>b1 b2 b3 b4.
               sendDataCmd lcd d r =
                 [I2CWrite (i2c_fd lcd) b1, DelayMicroseconds 50,
                  I2CWrite (i2c_fd lcd) b2, DelayMicroseconds 50,
                  I2CWrite (i2c_fd lcd) b3, DelayMicroseconds 50,
                  I2CWrite (i2c_fd lcd) b4, DelayMicroseconds 50] \<and>
               packed lcd True (r \<noteq> 0) (drop_bit 4 d) b1 \<and>
               packed lcd False (r \<noteq> 0) (drop_bit 4 d) b2 \<and>
               packed lcd True (r \<noteq> 0) d b3 \<and> packed lcd False (r \<noteq> 0) d b4))"
  using exec_backlight_kept [OF assms, of c s'] dark_putchar_kept [OF assms, of dark ch lit]
    sendDataCmd_i2c [OF assms(2,3), of r d]
  by blast

lemma i2c_dark_run: "exec (Backlight 0 0) i2c_state = Inr i2c_dark"
  "lcdBacklight i2c_state 0 0 = Inr i2c_dark" "lcdPutchar i2c_dark 0 0x41 = Inr i2c_dark_A"
  by code_simp+

theorem expander_backlight_bit_witness:
  "get_lcd i2c_state 0 = Inr i2c_lcd \<and> i2c_fd i2c_lcd \<noteq> 0 \<and> expander_wiring i2c_lcd \<and>
   call_handle (Backlight 0 0) = Some 0 \<and> exec (Backlight 0 0) i2c_state = Inr i2c_dark \<and>
   (\<exists>lcd'. get_lcd i2c_dark 0 = Inr lcd' \<and>
      backlight_kept lcd' (added (trace i2c_state) (trace i2c_dark))) \<and>
   lcdBacklight i2c_state 0 0 = Inr i2c_dark \<and> lcdPutchar i2c_dark 0 0x41 = Inr i2c_dark_A \<and>
   (\<exists>lcd2. get_lcd i2c_dark_A 0 = Inr lcd2 \<and> backlight_state lcd2 = 0 \<and>
      backlight_kept lcd2 (added (trace i2c_dark) (trace i2c_dark_A))) \<and>
   (1::byte) \<le> 1 \<and>
   (\<exists>b1 b2 b3 b4.
      sendDataCmd i2c_lcd 0x41 1 =
        [I2CWrite (i2c_fd i2c_lcd) b1, DelayMicroseconds 50,
         I2CWrite (i2c_fd i2c_lcd) b2, DelayMicroseconds 50,
         I2CWrite (i2c_fd i2c_lcd) b3, DelayMicroseconds 50,
         I2CWrite (i2c_fd i2c_lcd) b4, DelayMicroseconds 50] \<and>
      packed i2c_lcd True (1 \<noteq> (0::byte)) (drop_bit 4 0x41) b1 \<and>
      packed i2c_lcd False (1 \<noteq> (0::byte)) (drop_bit 4 0x41) b2 \<and>
      packed i2c_lcd True (1 \<noteq> (0::byte)) 0x41 b3 \<and>
      packed i2c_lcd False (1 \<noteq> (0::byte)) 0x41 b4)"
proof -
  have h: "get_lcd i2c_state 0 = Inr i2c_lcd" "i2c_fd i2c_lcd \<noteq> 0" "expander_wiring i2c_lcd"
    by (simp_all add: i2c_get i2c_wiring) (simp add: i2c_lcd_def)
  have c: "call_handle (Backlight 0 0) = Some 0" "(1::byte) \<le> 1" by simp_all
  from expander_backlight_bit [OF h, where c = "Backlight 0 0" and s' = i2c_dark
      and dark = i2c_dark and lit = i2c_dark_A and ch = "0x41" and r = 1 and d = "0x41"]
    h c i2c_dark_run
  show ?thesis by blast
qed

text \<open>
  With the backlight configured on the bit of the strobe, the byte that raises the
  strobe has that bit set although the backlight state is 0.
\<close>

theorem expander_backlight_bit_counterexample:
  "exec_all [Backlight 0 0, Putchar 0 0x41] clash_state = Inr clash_after \<and>
   get_lcd clash_after 0 = Inr clash_lcd \<and>
   i2c_fd clash_lcd = 5 \<and> backlight_bit clash_lcd = 2 \<and> backlight_state clash_lcd = 0 \<and>
   trace clash_after = trace clash_state @
     [I2CWrite 5 0,
      I2CWrite 5 0x45, DelayMicroseconds 50, I2CWrite 5 0x41, DelayMicroseconds 50,
      I2CWrite 5 0x15, DelayMicroseconds 50, I2CWrite 5 0x11, DelayMicroseconds 50] \<and>
   bit (0x45 :: int) 2"
  by code_simp

section \<open>Reads of the row table\<close>

text \<open>
  C9. The factory accepts a display of five rows and one column; on it the fourth
  \<open>lcdPutchar\<close> from (0,0) wraps to row 4 and reads \<open>rowOff [4]\<close>, and \<open>lcdPosition\<close> with
  \<open>y = 5\<close>, which the range check lets pass, reads \<open>rowOff [5]\<close>. On a 20x4 display
  \<open>lcdPosition\<close> with \<open>y = rows = 4\<close> passes the check and reads \<open>rowOff [4]\<close>. The table
  has the entries 0..3.
\<close>

theorem rowOff_read_outside_table:
  "fst (lcdNew tall_config True 0 boot) = 0 \<and> get_lcd tall_state 0 = Inr tall_lcd \<and>
   rows tall_lcd = 5 \<and> length rowOff = 4 \<and>
   exec_all [Putchar 0 0x41, Putchar 0 0x42, Putchar 0 0x43, Putchar 0 0x44] tall_state
     = Inl (RowOffOutOfBounds 4) \<and>
   lcdPosition tall_state 0 0 5 = Inl (RowOffOutOfBounds 5) \<and>
   rows wide_lcd = 4 \<and> lcdPosition wide_state 0 20 4 = Inl (RowOffOutOfBounds 4)"
  by code_simp

section \<open>The cursor and the controller's address register\<close>

lemma ctrl_run_append: "ctrl_run (ws @ ws') a = ctrl_run ws' (ctrl_run ws a)"
  by (simp add: ctrl_run_def)

lemma ctrl_run_simps [simp]:
  "ctrl_run [] a = a" "ctrl_run (w # ws) a = ctrl_run ws (ctrl_write w a)"
  by (simp_all add: ctrl_run_def)

lemma bit_128: "bit (128::int) n \<longleftrightarrow> n = 7"
proof -
  have "bit ((2::int) ^ 7) n \<longleftrightarrow> n = 7" by (simp only: bit_exp_iff) simp
  then show ?thesis by simp
qed

lemma set_ddram_address:
  assumes "0 \<le> v" and "v < 128"
  shows "uint ((word_of_int (0x80 OR v) :: byte) AND 0x7F) = v"
proof -
  from assms have t: "take_bit 7 v = v" by (simp add: take_bit_int_eq_self)
  have bv: "n < 7" if "bit v n" for n
    using that t by (metis bit_take_bit_iff)
  have m: "(0x7F :: byte) = mask 7" by (simp add: mask_eq_exp_minus_1)
  have "(word_of_int (0x80 OR v) :: byte) AND 0x7F = word_of_int v"
    unfolding m
    by (rule bit_word_eqI)
       (auto simp: bit_and_iff bit_word_of_int_iff bit_or_iff bit_mask_iff bit_128 dest: bv)
  then have "uint ((word_of_int (0x80 OR v) :: byte) AND 0x7F) = uint (word_of_int v :: byte)"
    by simp
  also from assms have "\<dots> = v"
    by (simp add: uint_word_of_int take_bit_int_eq_self)
  finally show ?thesis .
qed

lemma ctrl_set_ddram:
  assumes "0 \<le> v" and "v < 128"
  shows "ctrl_write (Whole 0 (word_of_int (0x80 OR v))) a = DDRAM v"
  using set_ddram_address [OF assms] bit_set_ddram [of v]
  by (simp add: ctrl_write.simps)

lemma ctrl_home: "ctrl_write (Whole 0 (word_of_int LCD_HOME)) a = DDRAM 0"
  by (simp add: LCD_HOME_def)

lemma ctrl_clear: "ctrl_write (Whole 0 (word_of_int LCD_CLEAR)) a = DDRAM 0"
  by (simp add: LCD_CLEAR_def)

lemma ctrl_data [simp]: "ctrl_write (Whole 1 d) (DDRAM k) = DDRAM (k + 1)"
  by simp

text \<open>The shadow holds the three flags, and a display control command leaves the address.\<close>

lemma set_control_range:
  assumes "0 \<le> lcdControl s" and "lcdControl s < 8"
    and "flag = LCD_DISPLAY_CTRL \<or> flag = LCD_CURSOR_CTRL \<or> flag = LCD_BLINK_CTRL"
  shows "0 \<le> lcdControl (set_control flag st s) \<and> lcdControl (set_control flag st s) < 8"
proof -
  from assms(1,2) have "lcdControl s \<in> {0, 1, 2, 3, 4, 5, 6, 7}" by auto
  with assms(3) show ?thesis
    by (auto simp: set_control_def lcd_consts)
qed

lemma ctrl_display_control:
  assumes "0 \<le> v" and "v < 8"
  shows "ctrl_write (Whole 0 (word_of_int (LCD_CTRL OR v))) a = a"
proof -
  from assms have "v \<in> {0, 1, 2, 3, 4, 5, 6, 7}" by auto
  then show ?thesis by (auto simp: LCD_CTRL_def)
qed


declare ctrl_write.simps(2) [simp del]

lemma in_step_iff:
  "in_step lcd a \<longleftrightarrow> 0 \<le> cy lcd \<and> cy lcd < 4 \<and> a = DDRAM (rowOff ! nat (cy lcd) + cx lcd)"
  by (auto simp: in_step_def rowOff_at_def)

lemma in_step_backlight [simp]: "in_step (l\<lparr>backlight_state := st\<rparr>) a = in_step l a"
  by (simp add: in_step_iff)

lemma home_in_step:
  assumes "get_lcd s fd = Inr lcd"
  shows "\<exists>s' lcd'. lcdHome s fd = Inr s' \<and> get_lcd s' fd = Inr lcd' \<and>
           in_step lcd' (ctrl_run (added (wire s) (wire s')) a)"
  using assms
  by (simp add: lcdHome_def get_lcd_set_lcd_same in_step_iff ctrl_home rowOff_def)

lemma clear_in_step:
  assumes "get_lcd s fd = Inr lcd"
  shows "\<exists>s' lcd'. lcdClear s fd = Inr s' \<and> get_lcd s' fd = Inr lcd' \<and>
           in_step lcd' (ctrl_run (added (wire s) (wire s')) a)"
  using assms
  by (simp add: lcdClear_def get_lcd_set_lcd_same in_step_iff ctrl_home rowOff_def added_def)

lemma position_in_step:
  assumes "get_lcd s fd = Inr lcd" and "cols lcd \<le> 20"
    and "0 \<le> x" and "x \<le> cols lcd" and "0 \<le> y" and "y \<le> rows lcd" and "y < 4"
  shows "\<exists>s' lcd'. lcdPosition s fd x y = Inr s' \<and> get_lcd s' fd = Inr lcd' \<and>
           in_step lcd' (ctrl_run (added (wire s) (wire s')) a)"
proof -
  from assms rowOff_bounds [of y] have "0 \<le> rowOff ! nat y + x" "rowOff ! nat y + x < 128"
    by simp_all
  from ctrl_set_ddram [OF this] lcdPosition_accepted [OF assms] assms(1,5,7) show ?thesis
    by (simp add: get_lcd_set_lcd_same in_step_iff)
qed

lemma control_in_step:
  assumes g: "get_lcd s fd = Inr lcd" and r: "0 \<le> lcdControl s" "lcdControl s < 8"
    and i: "in_step lcd a"
    and c: "c = Display fd st \<or> c = Cursor fd st \<or> c = CursorBlink fd st"
  shows "\<exists>s' lcd'. exec c s = Inr s' \<and> get_lcd s' fd = Inr lcd' \<and>
           in_step lcd' (ctrl_run (added (wire s) (wire s')) a)"
proof -
  have "ctrl_write (Whole 0 (word_of_int (LCD_CTRL OR lcdControl (set_control flag st s)))) a = a"
    if "flag = LCD_DISPLAY_CTRL \<or> flag = LCD_CURSOR_CTRL \<or> flag = LCD_BLINK_CTRL" for flag
    using set_control_range [OF r that, of st] by (intro ctrl_display_control) simp_all
  with g i c show ?thesis
    by (auto simp: lcdDisplay_def lcdCursor_def lcdCursorBlink_def Let_def)
qed

lemma backlight_in_step:
  assumes "get_lcd s fd = Inr lcd" and "in_step lcd a"
  shows "\<exists>s' lcd'. lcdBacklight s fd st = Inr s' \<and> get_lcd s' fd = Inr lcd' \<and>
           in_step lcd' (ctrl_run (added (wire s) (wire s')) a)"
  using assms
  by (simp add: lcdBacklight_def Let_def get_lcd_set_lcd_same added_def)

lemma putchar_in_step:
  assumes g: "get_lcd s fd = Inr lcd" and i: "in_step lcd a"
    and x: "cx lcd < INT_MAX" and y: "cy lcd + 1 = rows lcd \<or> cy lcd + 1 < 4"
  shows "\<exists>s' lcd' ws. lcdPutchar s fd ch = Inr s' \<and> get_lcd s' fd = Inr lcd' \<and>
           wire s' = wire s @ ws \<and> in_step lcd' (ctrl_run ws a) \<and>
           cx lcd' = (if cx lcd + 1 = cols lcd then 0 else cx lcd + 1) \<and>
           cy lcd' = (if cx lcd + 1 = cols lcd
                      then (if cy lcd + 1 = rows lcd then 0 else cy lcd + 1) else cy lcd) \<and>
           rows lcd' = rows lcd \<and> cols lcd' = cols lcd"
proof (cases "cx lcd + 1 = cols lcd")
  case False
  from lcdPutchar_advance [OF g x False, of ch] g i False show ?thesis
    by (simp add: get_lcd_set_lcd_same in_step_iff)
next
  case True
  define cy' where "cy' = (if cy lcd + 1 = rows lcd then 0 else cy lcd + 1)"
  from i have c: "0 \<le> cy lcd" "cy lcd < 4" by (simp_all add: in_step_iff)
  with y have r: "0 \<le> cy'" "cy' < 4" by (auto simp: cy'_def)
  from c have m: "cy lcd < INT_MAX" by (simp add: INT_MAX_def)
  from r rowOff_bounds [of cy'] have "0 \<le> rowOff ! nat cy'" "rowOff ! nat cy' < 128"
    by simp_all
  from ctrl_set_ddram [OF this] lcdPutchar_wrap [OF g x True m cy'_def r, of ch] g True r
  show ?thesis
    by (simp add: get_lcd_set_lcd_same in_step_iff cy'_def)
qed

text \<open>The cursor is on a cell of a display of at most four rows and twenty columns.\<close>

lemma puts_in_step:
  "get_lcd s fd = Inr lcd \<Longrightarrow> in_step lcd a \<Longrightarrow>
   0 \<le> cx lcd \<and> cx lcd < cols lcd \<and> cols lcd \<le> 20 \<and> cy lcd < rows lcd \<and> rows lcd \<le> 4 \<Longrightarrow>
   \<exists>s' lcd' ws. lcdPuts s fd cs = Inr s' \<and> get_lcd s' fd = Inr lcd' \<and>
      wire s' = wire s @ ws \<and> in_step lcd' (ctrl_run ws a)"
proof (induction cs arbitrary: s lcd a)
  case Nil
  then show ?case by simp
next
  case (Cons c cs)
  show ?case
  proof (cases "c = 0")
    case True
    with Cons.prems show ?thesis by simp
  next
    case False
    from Cons.prems(3) have x: "cx lcd < INT_MAX" and y: "cy lcd + 1 = rows lcd \<or> cy lcd + 1 < 4"
      by (auto simp: INT_MAX_def)
    from putchar_in_step [OF Cons.prems(1,2) x y, of c] obtain t l w1 where
      t: "lcdPutchar s fd c = Inr t" "get_lcd t fd = Inr l" "wire t = wire s @ w1"
        "in_step l (ctrl_run w1 a)"
        "cx l = (if cx lcd + 1 = cols lcd then 0 else cx lcd + 1)"
        "cy l = (if cx lcd + 1 = cols lcd
                 then (if cy lcd + 1 = rows lcd then 0 else cy lcd + 1) else cy lcd)"
        "rows l = rows lcd" "cols l = cols lcd"
      by blast
    from Cons.prems(2) have "0 \<le> cy lcd" by (simp add: in_step_iff)
    with t(5-8) Cons.prems(3)
    have "0 \<le> cx l \<and> cx l < cols l \<and> cols l \<le> 20 \<and> cy l < rows l \<and> rows l \<le> 4"
      by auto
    from Cons.IH [OF t(2,4) this] obtain s' lcd' w2 where
      "lcdPuts t fd cs = Inr s'" "get_lcd s' fd = Inr lcd'" "wire s' = wire t @ w2"
      "in_step lcd' (ctrl_run w2 (ctrl_run w1 a))"
      by blast
    with t(1,3) False have "lcdPuts s fd (c # cs) = Inr s' \<and> get_lcd s' fd = Inr lcd' \<and>
      wire s' = wire s @ (w1 @ w2) \<and> in_step lcd' (ctrl_run (w1 @ w2) a)"
      by (simp add: ctrl_run_append)
    then show ?thesis by blast
  qed
qed


text \<open>
  C5, amended. The controller's address register is followed along the whole bytes that a
  call hands to the controller. After \<open>lcdHome\<close>, \<open>lcdClear\<close> and a call of \<open>lcdPosition\<close>
  that is accepted with a row of \<open>rowOff\<close>, \<open>cx\<close> and \<open>cy\<close> name the cell that the register
  addresses, whatever it addressed before. If they name that cell before \<open>lcdDisplay\<close>,
  \<open>lcdCursor\<close>, \<open>lcdCursorBlink\<close> or \<open>lcdBacklight\<close>, they do afterwards; so for
  \<open>lcdPutchar\<close> when the next row is a row of \<open>rowOff\<close>, and for \<open>lcdPuts\<close> and
  \<open>lcdPrintf\<close> with the cursor on a cell of a display of at most four rows. The handle has
  at most 20 columns and the control shadow holds its three flags. Nothing is said of
  \<open>lcdSendCommand\<close>, \<open>lcdCharDef\<close>, \<open>lcdReinit\<close> and the factory.
\<close>

theorem cursor_tracks_address:
  assumes "get_lcd s fd = Inr lcd" and "cols lcd \<le> 20"
    and "0 \<le> lcdControl s" and "lcdControl s < 8"
  shows "(c = Home fd \<or> c = Clear fd \<or>
          (c = Position fd x y \<and> 0 \<le> x \<and> x \<le> cols lcd \<and> 0 \<le> y \<and> y \<le> rows lcd \<and> y < 4) \<longrightarrow>
            (\<exists>s' lcd'. exec c s = Inr s' \<and> get_lcd s' fd = Inr lcd' \<and>
               in_step lcd' (ctrl_run (added (wire s) (wire s')) a))) \<and>
         (in_step lcd a \<and>
          (c = Display fd st \<or> c = Cursor fd st \<or> c = CursorBlink fd st \<or> c = Backlight fd st \<or>
           (c = Putchar fd ch \<and> cx lcd < INT_MAX \<and> (cy lcd + 1 = rows lcd \<or> cy lcd + 1 < 4)) \<or>
           ((c = Puts fd str \<or> c = Printf fd str) \<and>
            0 \<le> cx lcd \<and> cx lcd < cols lcd \<and> cy lcd < rows lcd \<and> rows lcd \<le> 4)) \<longrightarrow>
            (\<exists>s' lcd'. exec c s = Inr s' \<and> get_lcd s' fd = Inr lcd' \<and>
               in_step lcd' (ctrl_run (added (wire s) (wire s')) a)))"
proof (intro conjI impI)
  assume "c = Home fd \<or> c = Clear fd \<or>
          (c = Position fd x y \<and> 0 \<le> x \<and> x \<le> cols lcd \<and> 0 \<le> y \<and> y \<le> rows lcd \<and> y < 4)"
  then show "(\<exists>s' lcd'. exec c s = Inr s' \<and> get_lcd s' fd = Inr lcd' \<and>
               in_step lcd' (ctrl_run (added (wire s) (wire s')) a))"
    using home_in_step [OF assms(1), of a] clear_in_step [OF assms(1), of a]
      position_in_step [OF assms(1,2), of x y a]
    by auto
next
  assume b: "in_step lcd a \<and>
          (c = Display fd st \<or> c = Cursor fd st \<or> c = CursorBlink fd st \<or> c = Backlight fd st \<or>
           (c = Putchar fd ch \<and> cx lcd < INT_MAX \<and> (cy lcd + 1 = rows lcd \<or> cy lcd + 1 < 4)) \<or>
           ((c = Puts fd str \<or> c = Printf fd str) \<and>
            0 \<le> cx lcd \<and> cx lcd < cols lcd \<and> cy lcd < rows lcd \<and> rows lcd \<le> 4))"
  then have i: "in_step lcd a" by simp
  from b consider
      (control) "c = Display fd st \<or> c = Cursor fd st \<or> c = CursorBlink fd st"
    | (backlight) "c = Backlight fd st"
    | (putchar) "c = Putchar fd ch" "cx lcd < INT_MAX" "cy lcd + 1 = rows lcd \<or> cy lcd + 1 < 4"
    | (puts) "c = Puts fd str \<or> c = Printf fd str"
        "0 \<le> cx lcd \<and> cx lcd < cols lcd \<and> cols lcd \<le> 20 \<and> cy lcd < rows lcd \<and> rows lcd \<le> 4"
    using assms(2) by auto
  then show "(\<exists>s' lcd'. exec c s = Inr s' \<and> get_lcd s' fd = Inr lcd' \<and>
               in_step lcd' (ctrl_run (added (wire s) (wire s')) a))"
  proof cases
    case control
    from control_in_step [OF assms(1,3,4) i this] show ?thesis .
  next
    case backlight
    with backlight_in_step [OF assms(1) i, of st] show ?thesis by simp
  next
    case putchar
    from putchar_in_step [OF assms(1) i putchar(2,3), of ch] putchar(1) show ?thesis
      by auto
  next
    case puts
    from puts_in_step [OF assms(1) i puts(2)] puts(1) show ?thesis
      by (auto simp: lcdPrintf_def) fastforce+
  qed
qed


lemma gpio4_control: "lcdControl gpio4_state = 0"
  by code_simp

theorem cursor_tracks_address_witness:
  "get_lcd gpio4_state 0 = Inr gpio4_lcd \<and> cols gpio4_lcd \<le> 20 \<and>
   0 \<le> lcdControl gpio4_state \<and> lcdControl gpio4_state < 8 \<and>
   (0::int) \<le> 5 \<and> 5 \<le> cols gpio4_lcd \<and> (0::int) \<le> 1 \<and> 1 \<le> rows gpio4_lcd \<and> (1::int) < 4 \<and>
   (\<exists>s' lcd'. exec (Position 0 5 1) gpio4_state = Inr s' \<and> get_lcd s' 0 = Inr lcd' \<and>
      in_step lcd' (ctrl_run (added (wire gpio4_state) (wire s')) (CGRAM 9))) \<and>
   in_step gpio4_lcd (DDRAM 0) \<and> cx gpio4_lcd < INT_MAX \<and>
   (cy gpio4_lcd + 1 = rows gpio4_lcd \<or> cy gpio4_lcd + 1 < 4) \<and>
   (\<exists>s' lcd'. exec (Putchar 0 0x41) gpio4_state = Inr s' \<and> get_lcd s' 0 = Inr lcd' \<and>
      in_step lcd' (ctrl_run (added (wire gpio4_state) (wire s')) (DDRAM 0)))"
proof -
  have h: "get_lcd gpio4_state 0 = Inr gpio4_lcd" "cols gpio4_lcd \<le> 20"
    "0 \<le> lcdControl gpio4_state" "lcdControl gpio4_state < 8"
    by (simp_all add: gpio4_get gpio4_control) (simp add: gpio4_lcd_def)
  have p: "(0::int) \<le> 5 \<and> 5 \<le> cols gpio4_lcd \<and> (0::int) \<le> 1 \<and> 1 \<le> rows gpio4_lcd \<and> (1::int) < 4"
    by (simp add: gpio4_lcd_def)
  have q: "in_step gpio4_lcd (DDRAM 0)" "cx gpio4_lcd < INT_MAX"
    "cy gpio4_lcd + 1 = rows gpio4_lcd \<or> cy gpio4_lcd + 1 < 4"
    by (simp_all add: in_step_iff gpio4_lcd_def rowOff_def INT_MAX_def)
  from cursor_tracks_address [OF h, where c = "Position 0 5 1" and x = 5 and y = 1
      and a = "CGRAM 9"] p
  have 1: "\<exists>s' lcd'. exec (Position 0 5 1) gpio4_state = Inr s' \<and> get_lcd s' 0 = Inr lcd' \<and>
      in_step lcd' (ctrl_run (added (wire gpio4_state) (wire s')) (CGRAM 9))"
    by blast
  from cursor_tracks_address [OF h, where c = "Putchar 0 0x41" and ch = "0x41"
      and a = "DDRAM 0"] q
  have 2: "\<exists>s' lcd'. exec (Putchar 0 0x41) gpio4_state = Inr s' \<and> get_lcd s' 0 = Inr lcd' \<and>
      in_step lcd' (ctrl_run (added (wire gpio4_state) (wire s')) (DDRAM 0))"
    by blast
  from h p q 1 2 show ?thesis by blast
qed

text \<open>
  With the cursor and the address register both on cell (0,0), \<open>lcdSendCommand\<close> with
  the command \<open>0x85\<close> moves the register to address 5 and leaves \<open>cx\<close> and \<open>cy\<close>;
  \<open>lcdCharDef\<close> leaves the register in the glyph memory.
\<close>

theorem cursor_tracks_address_counterexample:
  "in_step gpio4_lcd (DDRAM 0) \<and>
   lcdSendCommand gpio4_state 0 0x85 = Inr sent_state \<and>
   get_lcd sent_state 0 = Inr gpio4_lcd \<and>
   ctrl_run (added (wire gpio4_state) (wire sent_state)) (DDRAM 0) = DDRAM 5 \<and>
   \<not> in_step gpio4_lcd (DDRAM 5) \<and>
   lcdCharDef gpio4_state 0 3 [0x0E, 0x11, 0x11, 0x1F, 0x11, 0x11, 0x11, 0x00] = Inr glyph_state \<and>
   get_lcd glyph_state 0 = Inr gpio4_lcd \<and>
   ctrl_run (added (wire gpio4_state) (wire glyph_state)) (DDRAM 0) = CGRAM 32 \<and>
   \<not> in_step gpio4_lcd (CGRAM 32)"
  by code_simp

end
